theory Spec2Isabelle
  imports Complex_Main "HOL-Library.Word" "HOL-Library.Signed_Division" "HOL-Library.Stream"
begin

section \<open>C integers\<close>

text \<open>
  Both programs run on targets where \<^verbatim>\<open>int\<close> and \<^verbatim>\<open>unsigned int\<close> have 32 bits. A value of
  either type is a \<^typ>\<open>32 word\<close>: \<open>+\<close>, \<open>-\<close> and \<open>*\<close> wrap around, \<^const>\<open>unat\<close> reads the
  word as \<^verbatim>\<open>unsigned int\<close> and \<^const>\<open>sint\<close> as \<^verbatim>\<open>int\<close>. The conversion between the two C types
  keeps the bits, so it is the identity on words. For \<^verbatim>\<open>int\<close> the language leaves an overflow
  undefined; the model gives it the result of the hardware, which wraps around.
\<close>

type_synonym c_int = "32 word"
type_synonym c_uint = "32 word"

text \<open>
  C's \<^verbatim>\<open>/\<close> on \<^verbatim>\<open>int\<close> truncates towards zero. A zero divisor is an error in C; here the
  divisor is the constant 1024 in \<^verbatim>\<open>main\<close>, and positive by hypothesis wherever it is a variable.
\<close>

definition c_div :: "c_int \<Rightarrow> c_int \<Rightarrow> c_int" where
  "c_div x y = word_of_int (sint x sdiv sint y)"


section \<open>GPU vector addition: \<^verbatim>\<open>GPU_2nd_Session/1d_grid_1d_block.cu\<close>\<close>

subsection \<open>Constants\<close>

definition VECTOR_LENGTH :: nat where
  "VECTOR_LENGTH = 1000000"

definition MAX_NUMBER_OF_THREADS :: nat where
  "MAX_NUMBER_OF_THREADS = 1024"

subsection \<open>\<^verbatim>\<open>random_ints\<close>\<close>

text \<open>
  \<^verbatim>\<open>rand()\<close> reads and advances a hidden generator state. The state is the stream of the
  numbers still to come; each is a non-negative \<^verbatim>\<open>int\<close>. The loop
  \<^verbatim>\<open>for (i = 0; i < num_elements; i++) x[i] = rand() % range + 1;\<close> with \<^verbatim>\<open>range = 100\<close>
  returns the filled buffer and the generator state, or \<open>None\<close> when it would store
  outside the buffer. The counter stays below \<open>num_elements\<close>, so it is a natural number.
\<close>

function random_ints_loop ::
  "nat \<Rightarrow> nat \<Rightarrow> c_int list \<Rightarrow> nat stream \<Rightarrow> (c_int list \<times> nat stream) option" where
  "random_ints_loop i num_elements x rnd =
     (if i < num_elements then
        (if i < length x
         then random_ints_loop (i + 1) num_elements
                (x[i := of_nat (shd rnd mod 100 + 1)]) (stl rnd)
         else None)
      else Some (x, rnd))"
  by pat_completeness auto
termination
  by (relation "measure (\<lambda>(i, num_elements, x, rnd). num_elements - i)") auto

definition random_ints ::
  "c_int list \<Rightarrow> nat \<Rightarrow> nat stream \<Rightarrow> (c_int list \<times> nat stream) option" where
  "random_ints x num_elements rnd = random_ints_loop 0 num_elements x rnd"

subsection \<open>The kernel and its launch\<close>

text \<open>
  One worker of \<^verbatim>\<open>addWithThreadsAndBlocks\<close>, given its \<^verbatim>\<open>threadIdx.x\<close>, \<^verbatim>\<open>blockIdx.x\<close> and
  \<^verbatim>\<open>blockDim.x\<close> (all \<^verbatim>\<open>unsigned int\<close>). The sum \<^verbatim>\<open>threadIdx.x + blockIdx.x * blockDim.x\<close> is
  computed in \<^verbatim>\<open>unsigned int\<close> and then stored in the \<^verbatim>\<open>int index\<close>. The worker reads
  \<^verbatim>\<open>a\<close> and \<^verbatim>\<open>b\<close> and returns the new contents of \<^verbatim>\<open>c\<close>; an access outside one of the three
  buffers is \<open>None\<close>.
\<close>

definition addWithThreadsAndBlocks ::
  "c_uint \<Rightarrow> c_uint \<Rightarrow> c_uint \<Rightarrow> c_int list \<Rightarrow> c_int list \<Rightarrow> c_int list \<Rightarrow> c_int list option" where
  "addWithThreadsAndBlocks threadIdx_x blockIdx_x blockDim_x a b c =
     (let index = sint (threadIdx_x + blockIdx_x * blockDim_x) in
      if index < int VECTOR_LENGTH then
        (if 0 \<le> index \<and> nat index < length a \<and> nat index < length b \<and> nat index < length c
         then Some (c[nat index := a ! nat index + b ! nat index])
         else None)
      else Some c)"

text \<open>
  A launch \<^verbatim>\<open><<<dimGrid, dimBlock>>>\<close> runs one worker for every pair of a block index below
  \<^verbatim>\<open>dimGrid.x\<close> and a thread index below \<^verbatim>\<open>dimBlock.x\<close>. The workers share no state but the
  buffers: each reads \<^verbatim>\<open>a\<close> and \<^verbatim>\<open>b\<close>, which no worker writes, and writes at most one slot of
  \<^verbatim>\<open>c\<close>, which it does not read. \<open>run_workers\<close> runs them one after the other in the
  order of a schedule, and stops at the first faulting access; \<open>launch\<close> takes the schedule
  block by block, and the theorem about the kernel holds for every order.
\<close>

fun run_workers ::
  "(nat \<times> nat) list \<Rightarrow> nat \<Rightarrow> c_int list \<Rightarrow> c_int list \<Rightarrow> c_int list \<Rightarrow> c_int list option" where
  "run_workers [] blockDim_x a b c = Some c"
| "run_workers ((blockIdx_x, threadIdx_x) # ws) blockDim_x a b c =
     (case addWithThreadsAndBlocks (of_nat threadIdx_x) (of_nat blockIdx_x) (of_nat blockDim_x) a b c of
        None \<Rightarrow> None
      | Some c' \<Rightarrow> run_workers ws blockDim_x a b c')"

definition grid_workers :: "nat \<Rightarrow> nat \<Rightarrow> (nat \<times> nat) list" where
  "grid_workers gridDim_x blockDim_x = List.product [0..<gridDim_x] [0..<blockDim_x]"

definition launch ::
  "nat \<Rightarrow> nat \<Rightarrow> c_int list \<Rightarrow> c_int list \<Rightarrow> c_int list \<Rightarrow> c_int list option" where
  "launch gridDim_x blockDim_x a b c = run_workers (grid_workers gridDim_x blockDim_x) blockDim_x a b c"

text \<open>
  The execution configuration of \<^verbatim>\<open>main\<close>:
  \<^verbatim>\<open>(VECTOR_LENGTH + MAX_NUMBER_OF_THREADS - 1) / MAX_NUMBER_OF_THREADS\<close>, in \<^verbatim>\<open>int\<close>.
  \<open>blocks_for\<close> is the expression with the two constants as parameters.
\<close>

definition blocks_for :: "c_int \<Rightarrow> c_int \<Rightarrow> c_int" where
  "blocks_for L T = c_div (L + T - 1) T"

definition number_of_blocks :: c_int where
  "number_of_blocks = blocks_for (of_nat VECTOR_LENGTH) (of_nat MAX_NUMBER_OF_THREADS)"

subsection \<open>\<^verbatim>\<open>compare\<close>\<close>

text \<open>
  The loop of \<^verbatim>\<open>compare\<close> from index \<open>i\<close> on. The result is the returned \<^verbatim>\<open>int\<close> and the text
  printed, or \<open>None\<close> when the loop would read outside one of the buffers. The counter
  never exceeds \<^const>\<open>VECTOR_LENGTH\<close>, so it is a natural number; the sum \<^verbatim>\<open>a[i] + b[i]\<close> wraps
  around. In the source a backslash stands before the \<open>w\<close> of the first text; it is no escape
  sequence and the text printed is the one below.
\<close>

function compare_loop ::
  "nat \<Rightarrow> c_int list \<Rightarrow> c_int list \<Rightarrow> c_int list \<Rightarrow> (int \<times> string) option" where
  "compare_loop i a b c =
     (if i < VECTOR_LENGTH then
        (if i < length a \<and> i < length b \<and> i < length c then
           (if a ! i + b ! i \<noteq> c ! i
            then Some (- 1, ''\<newline>wrong results\<newline>'')
            else compare_loop (i + 1) a b c)
         else None)
      else Some (0, ''\<newline>Results are correct\<newline>''))"
  by pat_completeness auto
termination
  by (relation "measure (\<lambda>(i, a, b, c). VECTOR_LENGTH - i)") auto

definition compare :: "c_int list \<Rightarrow> c_int list \<Rightarrow> c_int list \<Rightarrow> (int \<times> string) option" where
  "compare a b c = compare_loop 0 a b c"

subsection \<open>\<^verbatim>\<open>main\<close>\<close>

text \<open>
  \<^verbatim>\<open>main\<close> talks to the C library and to the CUDA runtime. What they answer is an input of
  the model (\<open>env\<close>): whether each \<^verbatim>\<open>malloc\<close> returns a buffer, the status of each
  \<^verbatim>\<open>cudaMalloc\<close> and of each \<^verbatim>\<open>cudaMemcpy\<close> (named by the buffer it fills), the status that
  \<^verbatim>\<open>cudaGetLastError\<close> reports after the launch, the text \<^verbatim>\<open>cudaGetErrorString\<close> gives for a
  status, the contents of freshly allocated memory, and the numbers \<^verbatim>\<open>rand()\<close> will return.
\<close>

datatype buffer = host_a | host_b | host_c | device_a | device_b | device_c

datatype cudaError_t = cudaSuccess | cudaError nat

record env =
  malloc_ok :: "buffer \<Rightarrow> bool"
  cudaMalloc_status :: "buffer \<Rightarrow> cudaError_t"
  cudaMemcpy_status :: "buffer \<Rightarrow> cudaError_t"
  cudaGetLastError :: cudaError_t
  cudaGetErrorString :: "cudaError_t \<Rightarrow> string"
  uninitialised :: "buffer \<Rightarrow> nat \<Rightarrow> c_int"
  rand_numbers :: "nat stream"

text \<open>
  What \<^verbatim>\<open>main\<close> does to the outside is the list of its calls, in order: every allocation with
  its outcome, every release, every copy with its status (destination first, as in
  \<^verbatim>\<open>cudaMemcpy\<close>), the launch with its grid and block size, and every text printed.
\<close>

datatype event =
    Malloc buffer bool
  | Free buffer
  | CudaMalloc buffer cudaError_t
  | CudaFree buffer
  | CudaMemcpy buffer buffer cudaError_t
  | Launch nat nat
  | Printf string
  | CudaDeviceReset

text \<open>A fresh buffer of \<^verbatim>\<open>VECTOR_LENGTH * sizeof(int)\<close> bytes holds whatever the memory held.\<close>

definition fresh :: "env \<Rightarrow> buffer \<Rightarrow> c_int list" where
  "fresh e buf = map (uninitialised e buf) [0..<VECTOR_LENGTH]"

text \<open>
  \<^verbatim>\<open>main\<close> returns its exit status and the list of its calls; \<open>None\<close> is an access outside a
  host buffer. The kernel runs when the launch is accepted, that is when
  \<^verbatim>\<open>cudaGetLastError\<close> reports \<^const>\<open>cudaSuccess\<close>; a launch that is refused leaves
  \<^verbatim>\<open>device_c\<close> as it was allocated. A faulting access inside the kernel surfaces as the
  error status of the copy that follows it (700, an illegal address). The value that
  \<^verbatim>\<open>compare\<close> returns is not used by \<^verbatim>\<open>main\<close>; its text goes to the output.
\<close>

definition main :: "env \<Rightarrow> (int \<times> event list) option" where
  "main e =
     (let t1 = [Malloc host_a (malloc_ok e host_a)] in
      if \<not> malloc_ok e host_a then
        Some (- 1, t1 @ [Printf ''\<newline> memory not allocated''])
      else
      case random_ints (fresh e host_a) VECTOR_LENGTH (rand_numbers e) of
        None \<Rightarrow> None
      | Some (ha, rnd) \<Rightarrow>
      let t2 = t1 @ [Malloc host_b (malloc_ok e host_b)] in
      if \<not> malloc_ok e host_b then
        Some (- 1, t2 @ [Printf ''\<newline> memory not allocated'', Free host_a])
      else
      case random_ints (fresh e host_b) VECTOR_LENGTH rnd of
        None \<Rightarrow> None
      | Some (hb, rnd') \<Rightarrow>
      let t3 = t2 @ [Malloc host_c (malloc_ok e host_c)] in
      if \<not> malloc_ok e host_c then
        Some (- 1, t3 @ [Printf ''\<newline> memory not allocated'', Free host_a, Free host_b])
      else
      let t4 = t3 @ [CudaMalloc device_a (cudaMalloc_status e device_a)] in
      if cudaMalloc_status e device_a \<noteq> cudaSuccess then
        Some (- 1, t4 @ [Printf ''\<newline>cudaMalloc failed!'',
                        Free host_a, Free host_b, Free host_c])
      else
      let t5 = t4 @ [CudaMalloc device_b (cudaMalloc_status e device_b)] in
      if cudaMalloc_status e device_b \<noteq> cudaSuccess then
        Some (- 1, t5 @ [Printf ''\<newline>cudaMalloc failed!'',
                        Free host_a, Free host_b, Free host_c, CudaFree device_a])
      else
      let t6 = t5 @ [CudaMalloc device_c (cudaMalloc_status e device_c)] in
      if cudaMalloc_status e device_c \<noteq> cudaSuccess then
        Some (- 1, t6 @ [Printf ''\<newline>cudaMalloc failed!'',
                        Free host_a, Free host_b, Free host_c,
                        CudaFree device_a, CudaFree device_b])
      else
      let t7 = t6 @ [CudaMemcpy device_a host_a (cudaMemcpy_status e device_a)] in
      if cudaMemcpy_status e device_a \<noteq> cudaSuccess then
        Some (- 1, t7 @ [Printf ''\<newline>cudaMemcpy failed!'',
                        Free host_a, Free host_b, Free host_c,
                        CudaFree device_a, CudaFree device_b, CudaFree device_c])
      else
      let t8 = t7 @ [CudaMemcpy device_b host_b (cudaMemcpy_status e device_b)] in
      if cudaMemcpy_status e device_b \<noteq> cudaSuccess then
        Some (- 1, t8 @ [Printf ''\<newline>cudaMemcpy failed!'',
                        Free host_a, Free host_b, Free host_c,
                        CudaFree device_a, CudaFree device_b, CudaFree device_c])
      else
      let t9 = t8 @ [Launch (unat number_of_blocks) MAX_NUMBER_OF_THREADS];
          error = cudaGetLastError e;
          ran = (if error = cudaSuccess
                 then launch (unat number_of_blocks) MAX_NUMBER_OF_THREADS ha hb (fresh e device_c)
                 else Some (fresh e device_c));
          t10 = (if error \<noteq> cudaSuccess
                 then t9 @ [Printf (''Error: '' @ cudaGetErrorString e error @ ''\<newline>'')]
                 else t9);
          cudaStatus = (case ran of None \<Rightarrow> cudaError 700 | Some dc \<Rightarrow> cudaMemcpy_status e host_c);
          t11 = t10 @ [CudaMemcpy host_c device_c cudaStatus]
      in
      if cudaStatus \<noteq> cudaSuccess then
        Some (- 1, t11 @ [Printf ''\<newline>cudaMemcpy failed!'',
                         Free host_a, Free host_b, Free host_c,
                         CudaFree device_a, CudaFree device_b, CudaFree device_c])
      else
      case ran of
        None \<Rightarrow> None
      | Some hc \<Rightarrow>
      (case compare ha hb hc of
        None \<Rightarrow> None
      | Some (verdict, out) \<Rightarrow>
        Some (0, t11 @ [Printf out,
                        Free host_a, Free host_b, Free host_c,
                        CudaFree device_a, CudaFree device_b, CudaFree device_c,
                        CudaDeviceReset])))"

text \<open>
  Names for the data of a run: the buffer that \<^const>\<open>random_ints\<close> fills from a generator
  state, the elementwise (wrapping) sum of two buffers, and the result and text of
  \<^const>\<open>compare\<close> on buffers of \<^const>\<open>VECTOR_LENGTH\<close> elements.
\<close>

definition filled :: "nat stream \<Rightarrow> c_int list" where
  "filled rnd = map (\<lambda>j. of_nat (rnd !! j mod 100 + 1)) [0..<VECTOR_LENGTH]"

definition sum_buffer :: "c_int list \<Rightarrow> c_int list \<Rightarrow> c_int list" where
  "sum_buffer a b = map (\<lambda>i. a ! i + b ! i) [0..<VECTOR_LENGTH]"

definition verdict_of :: "c_int list \<Rightarrow> c_int list \<Rightarrow> c_int list \<Rightarrow> int \<times> string" where
  "verdict_of a b c =
     (if \<forall>i<VECTOR_LENGTH. a ! i + b ! i = c ! i
      then (0, ''\<newline>Results are correct\<newline>'')
      else (- 1, ''\<newline>wrong results\<newline>''))"

text \<open>The buffers a run still holds at its end: allocated with success and not released.\<close>

fun held :: "event list \<Rightarrow> buffer set \<Rightarrow> buffer set" where
  "held [] H = H"
| "held (Malloc buf ok # t) H = held t (if ok then insert buf H else H)"
| "held (CudaMalloc buf st # t) H = held t (if st = cudaSuccess then insert buf H else H)"
| "held (Free buf # t) H = held t (H - {buf})"
| "held (CudaFree buf # t) H = held t (H - {buf})"
| "held (ev # t) H = held t H"


definition quiet_env :: env where
  "quiet_env =
     \<lparr>malloc_ok = (\<lambda>buf. True),
      cudaMalloc_status = (\<lambda>buf. cudaSuccess),
      cudaMemcpy_status = (\<lambda>buf. cudaSuccess),
      cudaGetLastError = cudaSuccess,
      cudaGetErrorString = (\<lambda>st. if st = cudaSuccess then ''no error'' else ''invalid configuration argument''),
      uninitialised = (\<lambda>buf i. 0),
      rand_numbers = sconst 41\<rparr>"


definition launch_fails_env :: env where
  "launch_fails_env = quiet_env\<lparr>cudaGetLastError := cudaError 9\<rparr>"


section \<open>CPU vector addition: \<^verbatim>\<open>Vectorization/.../Section 3/code_to_start/array_addition.cpp\<close>\<close>

subsection \<open>Floats, the arrays and the length\<close>

text \<open>
  The elements are \<^verbatim>\<open>float\<close>s. The functions use three operations on them: the addition of two
  \<^verbatim>\<open>float\<close>s, the conversion of an \<^verbatim>\<open>unsigned int\<close> to \<^verbatim>\<open>float\<close> (in \<^verbatim>\<open>(j % 7) + r\<close>), and the
  conversion of a decimal literal to the \<^verbatim>\<open>float\<close> it initialises or is stored as
  (\<^verbatim>\<open>float r = 0.11\<close>, \<^verbatim>\<open>Y1[j] = 0.0\<close>). The model takes the three operations as a parameter and
  assumes no law about them, so every theorem below holds for the operations of the machine.
\<close>

record 'f float_ops =
  fadd :: "'f \<Rightarrow> 'f \<Rightarrow> 'f"
  of_uint :: "c_uint \<Rightarrow> 'f"
  of_literal :: "real \<Rightarrow> 'f"

text \<open>
  The header \<^verbatim>\<open>array_addition.h\<close> is not among the sources. It gives the length \<^verbatim>\<open>M\<close> and the
  four global arrays. \<^verbatim>\<open>M\<close> is a parameter of every function of the model, an \<^verbatim>\<open>int\<close> constant;
  the arrays are the state, each a list as long as the header declares the array. An access
  outside an array is \<open>None\<close>. The functions return \<^verbatim>\<open>unsigned short int\<close>.
\<close>

type_synonym c_ushort = "16 word"

record 'f arrays =
  X1 :: "'f list"
  X2 :: "'f list"
  Y1 :: "'f list"
  test2 :: "'f list"

subsection \<open>\<^verbatim>\<open>initialization_Add\<close>\<close>

text \<open>
  The loop \<^verbatim>\<open>for (unsigned int j = 0; j != M; j++)\<close>: the counter is an \<^verbatim>\<open>unsigned int\<close> and
  the test compares it with \<^verbatim>\<open>M\<close> converted to \<^verbatim>\<open>unsigned int\<close>. The loop ends for every \<^verbatim>\<open>M\<close>,
  because the distance \<open>M - j\<close> shrinks by one with every round.
\<close>

function initialization_Add_loop ::
  "'f float_ops \<Rightarrow> 'f \<Rightarrow> 'f \<Rightarrow> c_uint \<Rightarrow> c_uint \<Rightarrow> 'f arrays \<Rightarrow> 'f arrays option" where
  "initialization_Add_loop F e r j M s =
     (if j \<noteq> M then
        (if unat j < length (Y1 s) \<and> unat j < length (test2 s) \<and>
            unat j < length (X1 s) \<and> unat j < length (X2 s)
         then initialization_Add_loop F e r (j + 1) M
                (s\<lparr>Y1 := (Y1 s)[unat j := of_literal F 0.0],
                   test2 := (test2 s)[unat j := of_literal F 0.0],
                   X1 := (X1 s)[unat j := fadd F (of_uint F (j mod 7)) r],
                   X2 := (X2 s)[unat j := fadd F (of_uint F (j mod 13)) e]\<rparr>)
         else None)
      else Some s)"
  by pat_completeness auto
termination
proof (relation "measure (\<lambda>(F, e, r, j, M, s). unat (M - j))")
  show "wf (measure (\<lambda>(F, e, r, j, M, s). unat (M - j)))"
    by simp
next
  fix F :: "'f float_ops" and e r :: 'f and j M :: c_uint and s :: "'f arrays"
  assume "j \<noteq> M"
  then have "M - j \<noteq> 0"
    by simp
  then have "unat (M - j - 1) < unat (M - j)"
    by (simp add: unat_minus_one unat_gt_0)
  moreover have "M - (j + 1) = M - j - 1"
    by simp
  ultimately have "unat (M - (j + 1)) < unat (M - j)"
    by (simp only:)
  then show "((F, e, r, j + 1, M, s\<lparr>Y1 := (Y1 s)[unat j := of_literal F 0.0],
                   test2 := (test2 s)[unat j := of_literal F 0.0],
                   X1 := (X1 s)[unat j := fadd F (of_uint F (j mod 7)) r],
                   X2 := (X2 s)[unat j := fadd F (of_uint F (j mod 13)) e]\<rparr>), F, e, r, j, M, s)
        \<in> measure (\<lambda>(F, e, r, j, M, s). unat (M - j))"
    by simp
qed

definition initialization_Add :: "'f float_ops \<Rightarrow> c_int \<Rightarrow> 'f arrays \<Rightarrow> 'f arrays option" where
  "initialization_Add F M s =
     (let e = of_literal F 0.1234; p = of_literal F 0.7264; r = of_literal F 0.11
      in initialization_Add_loop F e r 0 M s)"

subsection \<open>\<^verbatim>\<open>Add_default\<close>\<close>

text \<open>
  The loop \<^verbatim>\<open>for (int j = 0; j < M; j++) Y1[j] = X1[j] + X2[j];\<close> compares as \<^verbatim>\<open>int\<close>. While
  \<open>j < M\<close> the increment does not overflow.
\<close>

function Add_default_loop ::
  "'f float_ops \<Rightarrow> c_int \<Rightarrow> c_int \<Rightarrow> 'f arrays \<Rightarrow> 'f arrays option" where
  "Add_default_loop F j M s =
     (if sint j < sint M then
        (if 0 \<le> sint j \<and> nat (sint j) < length (Y1 s) \<and>
            nat (sint j) < length (X1 s) \<and> nat (sint j) < length (X2 s)
         then Add_default_loop F (j + 1) M
                (s\<lparr>Y1 := (Y1 s)[nat (sint j) :=
                       fadd F (X1 s ! nat (sint j)) (X2 s ! nat (sint j))]\<rparr>)
         else None)
      else Some s)"
  by pat_completeness auto
termination
proof (relation "measure (\<lambda>(F, j, M, s). nat (sint M - sint j))")
  show "wf (measure (\<lambda>(F, j, M, s). nat (sint M - sint j)))"
    by simp
next
  fix F :: "'f float_ops" and j M :: c_int and s :: "'f arrays"
  assume lt: "sint j < sint M"
  have "sint M < 2 ^ 31"
    using sint_lt [of M] by simp
  moreover have "- (2 ^ 31) \<le> sint j"
    using sint_ge [of j] by simp
  ultimately have "sint (j + 1) = sint j + 1"
    using lt by (simp add: sint_word_ariths signed_take_bit_int_eq_self)
  then show "((F, j + 1, M, s\<lparr>Y1 := (Y1 s)[nat (sint j) :=
                       fadd F (X1 s ! nat (sint j)) (X2 s ! nat (sint j))]\<rparr>), F, j, M, s)
        \<in> measure (\<lambda>(F, j, M, s). nat (sint M - sint j))"
    using lt by simp
qed

definition Add_default :: "'f float_ops \<Rightarrow> c_int \<Rightarrow> 'f arrays \<Rightarrow> (c_ushort \<times> 'f arrays) option" where
  "Add_default F M s = map_option (\<lambda>s'. (0, s')) (Add_default_loop F 0 M s)"

subsection \<open>\<^verbatim>\<open>Add_SSE\<close> and \<^verbatim>\<open>Add_AVX\<close>\<close>

text \<open>
  Both bodies declare vector registers, hold the comment \<^verbatim>\<open>//write your code here\<close> and
  return 0: they read and write no array. (\<^verbatim>\<open>Compare_Add\<close>, the last function of the file,
  calls \<^verbatim>\<open>equal\<close>, which is not among the sources; nothing below is about it.)
\<close>

definition Add_SSE :: "'f float_ops \<Rightarrow> c_int \<Rightarrow> 'f arrays \<Rightarrow> (c_ushort \<times> 'f arrays) option" where
  "Add_SSE F M s = Some (0, s)"

definition Add_AVX :: "'f float_ops \<Rightarrow> c_int \<Rightarrow> 'f arrays \<Rightarrow> (c_ushort \<times> 'f arrays) option" where
  "Add_AVX F M s = Some (0, s)"

text \<open>The element of \<^verbatim>\<open>Y1\<close> that a call leaves at index \<open>j\<close>.\<close>

definition result_Y1 :: "(c_ushort \<times> 'f arrays) option \<Rightarrow> nat \<Rightarrow> 'f option" where
  "result_Y1 res j = map_option (\<lambda>(ret, s'). Y1 s' ! j) res"

text \<open>
  Two instances for the examples. In the first nothing is evaluated: a value is the term that
  computes it, so a result shows which operations produced it. The second is the real numbers
  with exact addition; it is used on small whole numbers only, which are \<^verbatim>\<open>float\<close>s and whose
  sums are \<^verbatim>\<open>float\<close>s, so that on them the addition of the machine gives the same results.
\<close>

datatype fterm = Literal real | Of_uint c_uint | Fadd fterm fterm

definition unevaluated :: "fterm float_ops" where
  "unevaluated = \<lparr>fadd = Fadd, of_uint = Of_uint, of_literal = Literal\<rparr>"

definition exact_arithmetic :: "real float_ops" where
  "exact_arithmetic = \<lparr>fadd = (+), of_uint = (\<lambda>n. real (unat n)), of_literal = (\<lambda>x. x)\<rparr>"


declare random_ints_loop.simps [simp del]
declare compare_loop.simps [simp del]
declare initialization_Add_loop.simps [simp del]
declare Add_default_loop.simps [simp del]


section \<open>The partition of the index space\<close>

lemma sint_in_range:
  "- (2 ^ 31) \<le> k \<Longrightarrow> k < 2 ^ 31 \<Longrightarrow> sint (word_of_int k :: c_int) = k"
  by (simp add: sint_sbintrunc' signed_take_bit_int_eq_self)

lemma sint_numerator:
  fixes L T :: c_int
  assumes "0 \<le> sint L" "0 < sint T" "sint L + sint T - 1 < 2 ^ 31"
  shows "sint (L + T - 1) = sint L + sint T - 1"
proof -
  have "L + T - 1 = word_of_int (sint L + sint T - 1)"
    by simp
  moreover have "- (2 ^ 31) \<le> sint L + sint T - 1"
    using assms by simp
  ultimately show ?thesis
    using assms(3) sint_in_range by metis
qed

lemma sdiv_nonneg: "0 \<le> (k::int) \<Longrightarrow> 0 < l \<Longrightarrow> k sdiv l = k div l"
  by (simp add: signed_divide_int_def sgn_if)

lemma ceil_div_bounds:
  fixes n t :: int
  assumes "0 \<le> n" "0 < t"
  shows "n \<le> (n + t - 1) div t * t" and "((n + t - 1) div t - 1) * t < n"
proof -
  define q where "q = (n + t - 1) div t"
  define r where "r = (n + t - 1) mod t"
  have eq: "q * t + r = n + t - 1"
    by (simp add: q_def r_def)
  have r: "0 \<le> r" "r < t"
    using assms by (simp_all add: r_def)
  show "n \<le> q * t" using eq r by linarith
  have "(q - 1) * t = q * t - t" by (simp add: algebra_simps)
  then show "(q - 1) * t < n" using eq r by linarith
qed

lemma sint_blocks_for:
  fixes L T :: c_int
  assumes "0 \<le> sint L" "0 < sint T" "sint L + sint T - 1 < 2 ^ 31"
  shows "sint (blocks_for L T) = (sint L + sint T - 1) div sint T"
proof -
  let ?n = "sint L" and ?t = "sint T"
  let ?q = "(?n + ?t - 1) div ?t"
  have num: "sint (L + T - 1) = ?n + ?t - 1"
    using assms by (rule sint_numerator)
  have q0: "0 \<le> ?q"
    using assms by (simp add: pos_imp_zdiv_nonneg_iff)
  have "?q * 1 \<le> ?q * ?t"
    using q0 assms(2) by (intro mult_left_mono) simp_all
  moreover have "?q * ?t + (?n + ?t - 1) mod ?t = ?n + ?t - 1"
    by simp
  moreover have "0 \<le> (?n + ?t - 1) mod ?t"
    using assms(2) by simp
  ultimately have q1: "?q < 2 ^ 31"
    using assms(3) by linarith
  have "blocks_for L T = word_of_int ?q"
    using assms by (simp add: blocks_for_def c_div_def num sdiv_nonneg)
  then show ?thesis
    using q0 q1 by (simp add: sint_in_range)
qed

text \<open>
  Claim C4, as amended. For every length \<open>L \<ge> 0\<close> and every block size \<open>T > 0\<close> whose sum
  \<open>L + T - 1\<close> is still an \<^verbatim>\<open>int\<close> (at most \<open>2^31 - 1\<close>), the block count
  \<open>blocks = (L + T - 1) / T\<close> satisfies \<open>blocks * T \<ge> L\<close> and \<open>(blocks - 1) * T < L\<close>.
\<close>

theorem blocks_for_covers:
  fixes L T :: c_int
  assumes "0 \<le> sint L" "0 < sint T" "sint L + sint T - 1 < 2 ^ 31"
  shows "sint L \<le> sint (blocks_for L T) * sint T \<and>
         (sint (blocks_for L T) - 1) * sint T < sint L"
  using ceil_div_bounds [of "sint L" "sint T"] assms
  by (simp add: sint_blocks_for)

text \<open>The program's own configuration: a million elements in blocks of 1024 threads.\<close>

theorem blocks_for_covers_witness:
  "0 \<le> sint (1000000 :: c_int) \<and> 0 < sint (1024 :: c_int) \<and>
   sint (1000000 :: c_int) + sint (1024 :: c_int) - 1 < 2 ^ 31 \<and>
   sint (1000000 :: c_int) \<le> sint (blocks_for 1000000 1024) * sint (1024 :: c_int) \<and>
   (sint (blocks_for 1000000 1024) - 1) * sint (1024 :: c_int) < sint (1000000 :: c_int)"
  using blocks_for_covers [of 1000000 1024] by simp

text \<open>
  Without the bound the sum wraps around: for \<open>L = 2^31 - 1\<close> and \<open>T = 2\<close> the numerator
  \<open>L + T - 1\<close> is \<open>- 2^31\<close>, the quotient is negative, and \<open>blocks * T \<ge> L\<close> fails.
\<close>

theorem blocks_for_overflow_counterexample:
  "0 \<le> sint (2147483647 :: c_int) \<and> 0 < sint (2 :: c_int) \<and>
   \<not> sint (2147483647 :: c_int) \<le> sint (blocks_for 2147483647 2) * sint (2 :: c_int)"
  by (simp add: blocks_for_def c_div_def)


section \<open>The comparator\<close>

lemma compare_loop_mismatch:
  assumes "k < VECTOR_LENGTH" "k < length a" "k < length b" "k < length c"
    and "a ! k + b ! k \<noteq> c ! k"
    and "\<forall>j. i \<le> j \<and> j < k \<longrightarrow> a ! j + b ! j = c ! j"
    and "i \<le> k"
  shows "compare_loop i a b c = Some (- 1, ''\<newline>wrong results\<newline>'')"
  using assms
proof (induction i a b c rule: compare_loop.induct)
  case (1 i a b c)
  show ?case
  proof (cases "i = k")
    case True
    with "1.prems" show ?thesis
      by (simp add: compare_loop.simps [of k])
  next
    case False
    with "1.prems" have lt: "i < k" and eq: "a ! i + b ! i = c ! i"
      by simp_all
    have "compare_loop (i + 1) a b c = Some (- 1, ''\<newline>wrong results\<newline>'')"
      using "1.prems" lt eq by (intro "1.IH") simp_all
    then show ?thesis
      using "1.prems" lt eq by (simp add: compare_loop.simps [of i])
  qed
qed

lemma compare_loop_agree:
  assumes "VECTOR_LENGTH \<le> length a" "VECTOR_LENGTH \<le> length b" "VECTOR_LENGTH \<le> length c"
    and "\<forall>j. i \<le> j \<and> j < VECTOR_LENGTH \<longrightarrow> a ! j + b ! j = c ! j"
  shows "compare_loop i a b c = Some (0, ''\<newline>Results are correct\<newline>'')"
  using assms
proof (induction i a b c rule: compare_loop.induct)
  case (1 i a b c)
  show ?case
  proof (cases "i < VECTOR_LENGTH")
    case True
    with "1.prems" have eq: "a ! i + b ! i = c ! i"
      by simp
    have "compare_loop (i + 1) a b c = Some (0, ''\<newline>Results are correct\<newline>'')"
      using "1.prems" True eq by (intro "1.IH") simp_all
    then show ?thesis
      using "1.prems" True eq by (simp add: compare_loop.simps [of i])
  next
    case False
    then show ?thesis
      by (simp add: compare_loop.simps [of i])
  qed
qed

lemma first_mismatch:
  fixes a b c :: "c_int list"
  assumes "\<exists>i<n. a ! i + b ! i \<noteq> c ! i"
  obtains k where "k < n" "a ! k + b ! k \<noteq> c ! k" "\<forall>j<k. a ! j + b ! j = c ! j"
proof -
  define k where "k = (LEAST i. i < n \<and> a ! i + b ! i \<noteq> c ! i)"
  from assms obtain i where "i < n \<and> a ! i + b ! i \<noteq> c ! i"
    by blast
  then have "k < n \<and> a ! k + b ! k \<noteq> c ! k"
    unfolding k_def by (rule LeastI)
  moreover have "\<forall>j<k. a ! j + b ! j = c ! j"
  proof (intro allI impI)
    fix j assume "j < k"
    then have "\<not> (j < n \<and> a ! j + b ! j \<noteq> c ! j)"
      unfolding k_def by (rule not_less_Least)
    moreover have "j < n" using \<open>j < k\<close> \<open>k < n \<and> _\<close> by simp
    ultimately show "a ! j + b ! j = c ! j" by simp
  qed
  ultimately show thesis using that by blast
qed

text \<open>
  Claim C9. \<^verbatim>\<open>compare\<close> tests exact (wrapping) integer equality index by index. If \<open>k\<close> is the
  smallest index below \<^const>\<open>VECTOR_LENGTH\<close> with \<open>a[k] + b[k] \<noteq> c[k]\<close>, it returns \<open>-1\<close>, and
  it does so even when the buffers end right after index \<open>k\<close>: no later element is read (a
  read there would be \<open>None\<close>). On buffers of \<^const>\<open>VECTOR_LENGTH\<close> elements it returns \<open>0\<close> if
  and only if \<open>a[i] + b[i] = c[i]\<close> at every index, and \<open>-1\<close> otherwise.
\<close>

theorem compare_exact:
  fixes a b c :: "c_int list"
  shows "(k < VECTOR_LENGTH \<and> k < length a \<and> k < length b \<and> k < length c \<and>
          a ! k + b ! k \<noteq> c ! k \<and> (\<forall>j<k. a ! j + b ! j = c ! j)
          \<longrightarrow> compare a b c = Some (- 1, ''\<newline>wrong results\<newline>'')) \<and>
         (VECTOR_LENGTH \<le> length a \<and> VECTOR_LENGTH \<le> length b \<and> VECTOR_LENGTH \<le> length c
          \<longrightarrow> map_option fst (compare a b c) =
                Some (if \<forall>i<VECTOR_LENGTH. a ! i + b ! i = c ! i then 0 else - 1))"
proof (intro conjI impI)
  assume "k < VECTOR_LENGTH \<and> k < length a \<and> k < length b \<and> k < length c \<and>
          a ! k + b ! k \<noteq> c ! k \<and> (\<forall>j<k. a ! j + b ! j = c ! j)"
  then show "compare a b c = Some (- 1, ''\<newline>wrong results\<newline>'')"
    unfolding compare_def by (intro compare_loop_mismatch [where k = k]) simp_all
next
  assume len: "VECTOR_LENGTH \<le> length a \<and> VECTOR_LENGTH \<le> length b \<and> VECTOR_LENGTH \<le> length c"
  show "map_option fst (compare a b c) =
          Some (if \<forall>i<VECTOR_LENGTH. a ! i + b ! i = c ! i then 0 else - 1)"
  proof (cases "\<forall>i<VECTOR_LENGTH. a ! i + b ! i = c ! i")
    case True
    then have "compare a b c = Some (0, ''\<newline>Results are correct\<newline>'')"
      unfolding compare_def using len by (intro compare_loop_agree) simp_all
    with True show ?thesis by simp
  next
    case False
    then obtain k where k: "k < VECTOR_LENGTH" "a ! k + b ! k \<noteq> c ! k"
      "\<forall>j<k. a ! j + b ! j = c ! j"
      using first_mismatch [of VECTOR_LENGTH a b c] by blast
    then have "compare a b c = Some (- 1, ''\<newline>wrong results\<newline>'')"
      unfolding compare_def using len by (intro compare_loop_mismatch [where k = k]) simp_all
    with False show ?thesis by simp
  qed
qed

text \<open>
  Three runs: a first mismatch at index 2 of buffers that hold three elements only; a million
  matching elements; a mismatch at index 0 of a million elements.
\<close>

theorem compare_exact_witness:
  "(2::nat) < VECTOR_LENGTH \<and>
   [1, 1, 1 :: c_int] ! 0 + [1, 1, 1] ! 0 = [2, 2, 7] ! 0 \<and>
   [1, 1, 1 :: c_int] ! 1 + [1, 1, 1] ! 1 = [2, 2, 7] ! 1 \<and>
   [1, 1, 1 :: c_int] ! 2 + [1, 1, 1] ! 2 \<noteq> [2, 2, 7] ! 2 \<and>
   compare [1, 1, 1] [1, 1, 1] [2, 2, 7] = Some (- 1, ''\<newline>wrong results\<newline>'') \<and>
   VECTOR_LENGTH \<le> length (replicate VECTOR_LENGTH (1 :: c_int)) \<and>
   map_option fst (compare (replicate VECTOR_LENGTH 1) (replicate VECTOR_LENGTH 1)
     (replicate VECTOR_LENGTH 2)) = Some 0 \<and>
   map_option fst (compare (replicate VECTOR_LENGTH 1) (replicate VECTOR_LENGTH 1)
     (replicate VECTOR_LENGTH 3)) = Some (- 1)"
proof -
  have two: "(\<forall>j<2. [1, 1, 1 :: c_int] ! j + [1, 1, 1] ! j = [2, 2, 7] ! j)"
    by (auto simp: less_Suc_eq numeral_2_eq_2)
  have bad: "\<not> (\<forall>i<VECTOR_LENGTH. replicate VECTOR_LENGTH (1 :: c_int) ! i +
      replicate VECTOR_LENGTH 1 ! i = replicate VECTOR_LENGTH (3 :: c_int) ! i)"
    by (auto simp: VECTOR_LENGTH_def intro!: exI [of _ 0])
  show ?thesis
    using two bad
      compare_exact [of 2 "[1, 1, 1]" "[1, 1, 1]" "[2, 2, 7]"]
      compare_exact [of 0 "replicate VECTOR_LENGTH 1" "replicate VECTOR_LENGTH 1"
        "replicate VECTOR_LENGTH 2"]
      compare_exact [of 0 "replicate VECTOR_LENGTH 1" "replicate VECTOR_LENGTH 1"
        "replicate VECTOR_LENGTH 3"]
    by (simp add: VECTOR_LENGTH_def)
qed


section \<open>The kernel on the computed grid\<close>

lemma unat_number_of_blocks: "unat number_of_blocks = 977"
  by (simp add: number_of_blocks_def blocks_for_def c_div_def VECTOR_LENGTH_def
      MAX_NUMBER_OF_THREADS_def)

lemma sint_of_nat_small: "n < 2 ^ 31 \<Longrightarrow> sint (of_nat n :: c_uint) = int n"
  using sint_in_range [of "int n"] by simp

lemma global_index:
  assumes "threadIdx_x + blockIdx_x * blockDim_x < 2 ^ 31"
  shows "sint (of_nat threadIdx_x + of_nat blockIdx_x * of_nat blockDim_x :: c_uint) =
         int (threadIdx_x + blockIdx_x * blockDim_x)"
  using sint_of_nat_small [OF assms] by simp

lemma worker_in_grid:
  assumes "VECTOR_LENGTH \<le> length a" "VECTOR_LENGTH \<le> length b" "VECTOR_LENGTH \<le> length c"
    and "threadIdx_x + blockIdx_x * blockDim_x < 2 ^ 31"
  shows "addWithThreadsAndBlocks (of_nat threadIdx_x) (of_nat blockIdx_x) (of_nat blockDim_x) a b c =
         (let idx = threadIdx_x + blockIdx_x * blockDim_x in
          if idx < VECTOR_LENGTH then Some (c[idx := a ! idx + b ! idx]) else Some c)"
proof -
  define idx where "idx = threadIdx_x + blockIdx_x * blockDim_x"
  have "sint (of_nat threadIdx_x + of_nat blockIdx_x * of_nat blockDim_x :: c_uint) = int idx"
    unfolding idx_def using assms(4) by (rule global_index)
  then show ?thesis
    unfolding addWithThreadsAndBlocks_def Let_def idx_def [symmetric]
    using assms(1-3) by auto
qed

lemma run_workers_result:
  assumes "VECTOR_LENGTH \<le> length a" "VECTOR_LENGTH \<le> length b" "VECTOR_LENGTH \<le> length c"
    and "\<forall>(bk, t) \<in> set ws. t + bk * bd < 2 ^ 31"
  shows "\<exists>c'. run_workers ws bd a b c = Some c' \<and> length c' = length c \<and>
           (\<forall>i<length c. c' ! i =
              (if i < VECTOR_LENGTH \<and> i \<in> (\<lambda>(bk, t). t + bk * bd) ` set ws
               then a ! i + b ! i else c ! i))"
  using assms
proof (induction ws arbitrary: c)
  case Nil
  then show ?case by simp
next
  case (Cons w ws)
  obtain bk t where w: "w = (bk, t)" by (cases w)
  let ?idx = "t + bk * bd"
  let ?c1 = "if ?idx < VECTOR_LENGTH then c[?idx := a ! ?idx + b ! ?idx] else c"
  have small: "?idx < 2 ^ 31"
    using Cons.prems(4) w by simp
  have step: "addWithThreadsAndBlocks (of_nat t) (of_nat bk) (of_nat bd) a b c = Some ?c1"
    using worker_in_grid [OF Cons.prems(1-3) small] by (simp add: Let_def)
  have len1: "length ?c1 = length c"
    by simp
  have "\<exists>c'. run_workers ws bd a b ?c1 = Some c' \<and> length c' = length ?c1 \<and>
           (\<forall>i<length ?c1. c' ! i =
              (if i < VECTOR_LENGTH \<and> i \<in> (\<lambda>(bk, t). t + bk * bd) ` set ws
               then a ! i + b ! i else ?c1 ! i))"
    using Cons.prems by (intro Cons.IH) simp_all
  then obtain c' where run: "run_workers ws bd a b ?c1 = Some c'"
    and len: "length c' = length c"
    and val: "\<forall>i<length c. c' ! i =
              (if i < VECTOR_LENGTH \<and> i \<in> (\<lambda>(bk, t). t + bk * bd) ` set ws
               then a ! i + b ! i else ?c1 ! i)"
    unfolding len1 by blast
  have "run_workers (w # ws) bd a b c = Some c'"
    using step run by (simp add: w)
  moreover have "\<forall>i<length c. c' ! i =
              (if i < VECTOR_LENGTH \<and> i \<in> (\<lambda>(bk, t). t + bk * bd) ` set (w # ws)
               then a ! i + b ! i else c ! i)"
  proof (intro allI impI)
    fix i assume i: "i < length c"
    show "c' ! i = (if i < VECTOR_LENGTH \<and> i \<in> (\<lambda>(bk, t). t + bk * bd) ` set (w # ws)
               then a ! i + b ! i else c ! i)"
      using val [rule_format, OF i] i by (auto simp: w nth_list_update)
  qed
  ultimately show ?case
    using len by blast
qed

lemma grid_covers:
  assumes "i < VECTOR_LENGTH"
  shows "i \<in> (\<lambda>(bk, t). t + bk * MAX_NUMBER_OF_THREADS) `
           set (grid_workers (unat number_of_blocks) MAX_NUMBER_OF_THREADS)"
proof -
  let ?T = "MAX_NUMBER_OF_THREADS"
  have "i div ?T < 977"
    using assms by (simp add: VECTOR_LENGTH_def MAX_NUMBER_OF_THREADS_def)
  moreover have "i mod ?T < ?T"
    by (simp add: MAX_NUMBER_OF_THREADS_def)
  ultimately have "(i div ?T, i mod ?T) \<in> set (grid_workers (unat number_of_blocks) ?T)"
    by (simp add: grid_workers_def unat_number_of_blocks)
  moreover have "i = (\<lambda>(bk, t). t + bk * ?T) (i div ?T, i mod ?T)"
    by simp
  ultimately show ?thesis
    by (rule rev_image_eqI)
qed

lemma grid_no_wrap:
  "\<forall>(bk, t) \<in> set (grid_workers (unat number_of_blocks) MAX_NUMBER_OF_THREADS).
     t + bk * MAX_NUMBER_OF_THREADS < 2 ^ 31"
proof -
  have "t + bk * 1024 < 2 ^ 31" if "bk < 977" "t < 1024" for bk t :: nat
  proof -
    have "bk * 1024 \<le> 976 * 1024" using that(1) by simp
    then show ?thesis using that(2) by simp
  qed
  then show ?thesis
    by (auto simp: grid_workers_def unat_number_of_blocks MAX_NUMBER_OF_THREADS_def)
qed


text \<open>
  Claim C3. A worker whose \<^verbatim>\<open>index\<close> is not below \<^const>\<open>VECTOR_LENGTH\<close> writes nothing,
  whatever its coordinates. In the grid that \<^verbatim>\<open>main\<close> computes
  (\<^const>\<open>number_of_blocks\<close> blocks of \<^const>\<open>MAX_NUMBER_OF_THREADS\<close> threads) the index
  \<open>idx = threadIdx.x + blockIdx.x * blockDim.x\<close> does not wrap, and the worker stores
  \<open>c[idx] = a[idx] + b[idx]\<close> if \<open>idx < VECTOR_LENGTH\<close> and leaves \<open>c\<close> as it is otherwise.
  Hence, on buffers of at least \<^const>\<open>VECTOR_LENGTH\<close> elements, running the workers of that grid
  in any order \<open>ws\<close> faults nowhere and ends with \<open>c[i] = a[i] + b[i]\<close> for every
  \<open>i < VECTOR_LENGTH\<close>, and with every slot of \<open>c\<close> from \<^const>\<open>VECTOR_LENGTH\<close> on untouched.
\<close>

theorem kernel_guarded_addition:
  assumes "VECTOR_LENGTH \<le> length a" "VECTOR_LENGTH \<le> length b" "VECTOR_LENGTH \<le> length c"
    and "set ws = set (grid_workers (unat number_of_blocks) MAX_NUMBER_OF_THREADS)"
  shows "(\<forall>threadIdx_x blockIdx_x blockDim_x.
            \<not> sint (threadIdx_x + blockIdx_x * blockDim_x) < int VECTOR_LENGTH \<longrightarrow>
            addWithThreadsAndBlocks threadIdx_x blockIdx_x blockDim_x a b c = Some c) \<and>
         (\<forall>blockIdx_x < unat number_of_blocks. \<forall>threadIdx_x < MAX_NUMBER_OF_THREADS.
            addWithThreadsAndBlocks (of_nat threadIdx_x) (of_nat blockIdx_x)
              (of_nat MAX_NUMBER_OF_THREADS) a b c =
            (let idx = threadIdx_x + blockIdx_x * MAX_NUMBER_OF_THREADS in
             if idx < VECTOR_LENGTH then Some (c[idx := a ! idx + b ! idx]) else Some c)) \<and>
         (\<exists>c'. run_workers ws MAX_NUMBER_OF_THREADS a b c = Some c' \<and>
            length c' = length c \<and>
            (\<forall>i<VECTOR_LENGTH. c' ! i = a ! i + b ! i) \<and>
            (\<forall>i. VECTOR_LENGTH \<le> i \<and> i < length c \<longrightarrow> c' ! i = c ! i))"
proof (intro conjI allI impI)
  fix threadIdx_x blockIdx_x blockDim_x :: c_uint
  assume "\<not> sint (threadIdx_x + blockIdx_x * blockDim_x) < int VECTOR_LENGTH"
  then show "addWithThreadsAndBlocks threadIdx_x blockIdx_x blockDim_x a b c = Some c"
    by (simp add: addWithThreadsAndBlocks_def)
next
  fix blockIdx_x threadIdx_x :: nat
  assume "blockIdx_x < unat number_of_blocks" "threadIdx_x < MAX_NUMBER_OF_THREADS"
  then have "(blockIdx_x, threadIdx_x) \<in>
      set (grid_workers (unat number_of_blocks) MAX_NUMBER_OF_THREADS)"
    by (simp add: grid_workers_def)
  then have "threadIdx_x + blockIdx_x * MAX_NUMBER_OF_THREADS < 2 ^ 31"
    using grid_no_wrap by blast
  then show "addWithThreadsAndBlocks (of_nat threadIdx_x) (of_nat blockIdx_x)
              (of_nat MAX_NUMBER_OF_THREADS) a b c =
            (let idx = threadIdx_x + blockIdx_x * MAX_NUMBER_OF_THREADS in
             if idx < VECTOR_LENGTH then Some (c[idx := a ! idx + b ! idx]) else Some c)"
    using assms(1-3) by (intro worker_in_grid)
next
  have "\<forall>(bk, t) \<in> set ws. t + bk * MAX_NUMBER_OF_THREADS < 2 ^ 31"
    unfolding assms(4) by (rule grid_no_wrap)
  with assms(1-3) obtain c' where run: "run_workers ws MAX_NUMBER_OF_THREADS a b c = Some c'"
    and len: "length c' = length c"
    and val: "\<forall>i<length c. c' ! i =
              (if i < VECTOR_LENGTH \<and> i \<in> (\<lambda>(bk, t). t + bk * MAX_NUMBER_OF_THREADS) ` set ws
               then a ! i + b ! i else c ! i)"
    using run_workers_result [of a b c ws MAX_NUMBER_OF_THREADS] by blast
  have "c' ! i = a ! i + b ! i" if "i < VECTOR_LENGTH" for i
    using val [rule_format, of i] that assms(3) grid_covers [OF that] by (simp add: assms(4))
  moreover have "c' ! i = c ! i" if "VECTOR_LENGTH \<le> i \<and> i < length c" for i
    using val [rule_format, of i] that by simp
  ultimately show "\<exists>c'. run_workers ws MAX_NUMBER_OF_THREADS a b c = Some c' \<and>
            length c' = length c \<and>
            (\<forall>i<VECTOR_LENGTH. c' ! i = a ! i + b ! i) \<and>
            (\<forall>i. VECTOR_LENGTH \<le> i \<and> i < length c \<longrightarrow> c' ! i = c ! i)"
    using run len by blast
qed

text \<open>
  A run on an output buffer with three guard slots behind its million elements: the last
  worker of the grid (thread 1023 of block 976, index 1000447) writes nothing, and after the
  launch the first and the last sum are in place and the guard slots still hold 0.
\<close>

theorem kernel_guarded_addition_witness:
  "VECTOR_LENGTH \<le> length (replicate VECTOR_LENGTH (1 :: c_int)) \<and>
   VECTOR_LENGTH \<le> length (replicate VECTOR_LENGTH (2 :: c_int)) \<and>
   VECTOR_LENGTH \<le> length (replicate (VECTOR_LENGTH + 3) (0 :: c_int)) \<and>
   addWithThreadsAndBlocks 1023 976 1024 (replicate VECTOR_LENGTH 1) (replicate VECTOR_LENGTH 2)
     (replicate (VECTOR_LENGTH + 3) 0) = Some (replicate (VECTOR_LENGTH + 3) 0) \<and>
   map_option (\<lambda>c'. (length c', c' ! 0, c' ! 999999, c' ! 1000000, c' ! 1000002))
     (launch (unat number_of_blocks) MAX_NUMBER_OF_THREADS (replicate VECTOR_LENGTH 1)
        (replicate VECTOR_LENGTH 2) (replicate (VECTOR_LENGTH + 3) 0)) =
   Some (1000003, 3, 3, 0, 0)"
proof -
  let ?a = "replicate VECTOR_LENGTH (1 :: c_int)"
  let ?b = "replicate VECTOR_LENGTH (2 :: c_int)"
  let ?c = "replicate (VECTOR_LENGTH + 3) (0 :: c_int)"
  let ?ws = "grid_workers (unat number_of_blocks) MAX_NUMBER_OF_THREADS"
  have h: "VECTOR_LENGTH \<le> length ?a" "VECTOR_LENGTH \<le> length ?b" "VECTOR_LENGTH \<le> length ?c"
    "set ?ws = set (grid_workers (unat number_of_blocks) MAX_NUMBER_OF_THREADS)"
    by simp_all
  note k = kernel_guarded_addition [OF h]
  have "\<not> sint (1023 + 976 * 1024 :: c_uint) < int VECTOR_LENGTH"
    by (simp add: VECTOR_LENGTH_def)
  with k have w: "addWithThreadsAndBlocks 1023 976 1024 ?a ?b ?c = Some ?c"
    by blast
  from k obtain c' where run: "run_workers ?ws MAX_NUMBER_OF_THREADS ?a ?b ?c = Some c'"
    and len: "length c' = length ?c"
    and sum_buffer: "\<forall>i<VECTOR_LENGTH. c' ! i = ?a ! i + ?b ! i"
    and rest: "\<forall>i. VECTOR_LENGTH \<le> i \<and> i < length ?c \<longrightarrow> c' ! i = ?c ! i"
    by blast
  have "c' ! 0 = 3" "c' ! 999999 = 3"
    using sum_buffer [rule_format, of 0] sum_buffer [rule_format, of 999999]
    by (simp_all add: VECTOR_LENGTH_def)
  moreover have "c' ! 1000000 = 0" "c' ! 1000002 = 0"
    using rest [rule_format, of 1000000] rest [rule_format, of 1000002]
    by (simp_all add: VECTOR_LENGTH_def)
  moreover have "length c' = 1000003"
    using len by (simp add: VECTOR_LENGTH_def)
  ultimately show ?thesis
    using w run h(1-3) by (simp add: launch_def)
qed


section \<open>The data of a run\<close>

lemma random_ints_loop_result:
  assumes "n \<le> length x"
  shows "\<exists>y. random_ints_loop i n x rnd = Some (y, sdrop (n - i) rnd) \<and> length y = length x \<and>
           (\<forall>j<length x. y ! j =
              (if i \<le> j \<and> j < n then of_nat (rnd !! (j - i) mod 100 + 1) else x ! j))"
  using assms
proof (induction i n x rnd rule: random_ints_loop.induct)
  case (1 i n x rnd)
  show ?case
  proof (cases "i < n")
    case False
    then show ?thesis
      by (auto simp: random_ints_loop.simps [of i])
  next
    case True
    let ?x1 = "x[i := of_nat (shd rnd mod 100 + 1)]"
    have inb: "i < length x"
      using True "1.prems" by simp
    have "\<exists>y. random_ints_loop (i + 1) n ?x1 (stl rnd) = Some (y, sdrop (n - (i + 1)) (stl rnd)) \<and>
            length y = length ?x1 \<and>
            (\<forall>j<length ?x1. y ! j =
               (if i + 1 \<le> j \<and> j < n then of_nat (stl rnd !! (j - (i + 1)) mod 100 + 1)
                else ?x1 ! j))"
      using True inb "1.prems" by (intro "1.IH") simp_all
    then obtain y where run: "random_ints_loop (i + 1) n ?x1 (stl rnd) =
          Some (y, sdrop (n - (i + 1)) (stl rnd))"
      and len: "length y = length x"
      and val: "\<forall>j<length x. y ! j =
               (if i + 1 \<le> j \<and> j < n then of_nat (stl rnd !! (j - (i + 1)) mod 100 + 1)
                else ?x1 ! j)"
      by auto
    have drop: "sdrop (n - (i + 1)) (stl rnd) = sdrop (n - i) rnd"
    proof -
      have "n - i = Suc (n - (i + 1))" using True by simp
      then show ?thesis by simp
    qed
    have "random_ints_loop i n x rnd = Some (y, sdrop (n - i) rnd)"
      using True inb run drop by (simp add: random_ints_loop.simps [of i])
    moreover have "\<forall>j<length x. y ! j =
              (if i \<le> j \<and> j < n then of_nat (rnd !! (j - i) mod 100 + 1) else x ! j)"
    proof (intro allI impI)
      fix j assume j: "j < length x"
      show "y ! j = (if i \<le> j \<and> j < n then of_nat (rnd !! (j - i) mod 100 + 1) else x ! j)"
      proof (cases "i + 1 \<le> j")
        case True
        then have "j - i = Suc (j - (i + 1))" by simp
        then have "rnd !! (j - i) = stl rnd !! (j - (i + 1))" by simp
        then show ?thesis
          using val [rule_format, OF j] True by simp
      next
        case False
        then show ?thesis
          using val [rule_format, OF j] j \<open>i < n\<close> by (cases "j = i") simp_all
      qed
    qed
    ultimately show ?thesis
      using len by blast
  qed
qed

lemma random_ints_fresh:
  "random_ints (fresh e buf) VECTOR_LENGTH rnd = Some (filled rnd, sdrop VECTOR_LENGTH rnd)"
proof -
  have len: "length (fresh e buf) = VECTOR_LENGTH"
    by (simp add: fresh_def)
  obtain y where run: "random_ints_loop 0 VECTOR_LENGTH (fresh e buf) rnd =
        Some (y, sdrop (VECTOR_LENGTH - 0) rnd)"
    and ylen: "length y = VECTOR_LENGTH"
    and val: "\<forall>j<VECTOR_LENGTH. y ! j =
       (if 0 \<le> j \<and> j < VECTOR_LENGTH then of_nat (rnd !! (j - 0) mod 100 + 1)
        else fresh e buf ! j)"
    using random_ints_loop_result [of VECTOR_LENGTH "fresh e buf" 0 rnd] len by auto
  have "y = filled rnd"
    using ylen val by (intro nth_equalityI) (simp_all add: filled_def)
  then show ?thesis
    using run by (simp add: random_ints_def)
qed

lemma length_filled [simp]: "length (filled rnd) = VECTOR_LENGTH"
  by (simp add: filled_def)

lemma length_sum_buffer [simp]: "length (sum_buffer a b) = VECTOR_LENGTH"
  by (simp add: sum_buffer_def)

lemma length_fresh [simp]: "length (fresh e buf) = VECTOR_LENGTH"
  by (simp add: fresh_def)

lemma launch_sums:
  assumes "length a = VECTOR_LENGTH" "length b = VECTOR_LENGTH" "length c = VECTOR_LENGTH"
  shows "launch (unat number_of_blocks) MAX_NUMBER_OF_THREADS a b c = Some (sum_buffer a b)"
proof -
  let ?ws = "grid_workers (unat number_of_blocks) MAX_NUMBER_OF_THREADS"
  obtain c' where run: "run_workers ?ws MAX_NUMBER_OF_THREADS a b c = Some c'"
    and len: "length c' = length c"
    and val: "\<forall>i<length c. c' ! i =
              (if i < VECTOR_LENGTH \<and> i \<in> (\<lambda>(bk, t). t + bk * MAX_NUMBER_OF_THREADS) ` set ?ws
               then a ! i + b ! i else c ! i)"
    using run_workers_result [of a b c ?ws MAX_NUMBER_OF_THREADS] grid_no_wrap assms by auto
  have "c' ! i = sum_buffer a b ! i" if "i < VECTOR_LENGTH" for i
    using val [rule_format, of i] that assms(3) grid_covers [OF that] by (simp add: sum_buffer_def)
  then have "c' = sum_buffer a b"
    using len assms(3) by (intro nth_equalityI) simp_all
  then show ?thesis
    using run by (simp add: launch_def)
qed

lemma compare_verdict:
  assumes "length a = VECTOR_LENGTH" "length b = VECTOR_LENGTH" "length c = VECTOR_LENGTH"
  shows "compare a b c = Some (verdict_of a b c)"
proof (cases "\<forall>i<VECTOR_LENGTH. a ! i + b ! i = c ! i")
  case True
  then show ?thesis
    unfolding compare_def verdict_of_def using assms
    by (simp add: compare_loop_agree)
next
  case False
  then obtain k where k: "k < VECTOR_LENGTH" "a ! k + b ! k \<noteq> c ! k"
    "\<forall>j<k. a ! j + b ! j = c ! j"
    using first_mismatch [of VECTOR_LENGTH a b c] by blast
  then have "compare_loop 0 a b c = Some (- 1, ''\<newline>wrong results\<newline>'')"
    using assms by (intro compare_loop_mismatch [where k = k]) simp_all
  then show ?thesis
    unfolding compare_def verdict_of_def using False by simp
qed

lemma verdict_sum_buffer: "verdict_of a b (sum_buffer a b) = (0, ''\<newline>Results are correct\<newline>'')"
  by (simp add: verdict_of_def sum_buffer_def)


section \<open>The runs of \<^verbatim>\<open>main\<close>\<close>

text \<open>One lemma for each way out of \<^verbatim>\<open>main\<close>, with all the calls of that run.\<close>

lemma compare_verdict_pair:
  assumes "length a = VECTOR_LENGTH" "length b = VECTOR_LENGTH" "length c = VECTOR_LENGTH"
  shows "compare a b c = Some (fst (verdict_of a b c), snd (verdict_of a b c))"
  using assms by (simp add: compare_verdict)

lemmas main_simps = main_def random_ints_fresh launch_sums compare_verdict_pair Let_def









lemma main_copy_c_fails:
  assumes "malloc_ok e host_a" "malloc_ok e host_b" "malloc_ok e host_c"
    and "cudaMalloc_status e device_a = cudaSuccess"
    and "cudaMalloc_status e device_b = cudaSuccess"
    and "cudaMalloc_status e device_c = cudaSuccess"
    and "cudaMemcpy_status e device_a = cudaSuccess"
    and "cudaMemcpy_status e device_b = cudaSuccess"
    and "cudaMemcpy_status e host_c \<noteq> cudaSuccess"
  shows "main e = Some (- 1,
           [Malloc host_a True, Malloc host_b True, Malloc host_c True,
            CudaMalloc device_a cudaSuccess, CudaMalloc device_b cudaSuccess,
            CudaMalloc device_c cudaSuccess,
            CudaMemcpy device_a host_a cudaSuccess, CudaMemcpy device_b host_b cudaSuccess,
            Launch (unat number_of_blocks) MAX_NUMBER_OF_THREADS] @
           (if cudaGetLastError e \<noteq> cudaSuccess
            then [Printf (''Error: '' @ cudaGetErrorString e (cudaGetLastError e) @ ''\<newline>'')]
            else []) @
           [CudaMemcpy host_c device_c (cudaMemcpy_status e host_c),
            Printf ''\<newline>cudaMemcpy failed!'',
            Free host_a, Free host_b, Free host_c,
            CudaFree device_a, CudaFree device_b, CudaFree device_c])"
proof (cases "cudaGetLastError e = cudaSuccess")
  case True
  with assms show ?thesis by (simp add: main_simps)
next
  case False
  with assms show ?thesis by (simp add: main_simps)
qed

lemma main_all_succeed:
  assumes "malloc_ok e host_a" "malloc_ok e host_b" "malloc_ok e host_c"
    and "cudaMalloc_status e device_a = cudaSuccess"
    and "cudaMalloc_status e device_b = cudaSuccess"
    and "cudaMalloc_status e device_c = cudaSuccess"
    and "cudaMemcpy_status e device_a = cudaSuccess"
    and "cudaMemcpy_status e device_b = cudaSuccess"
    and "cudaMemcpy_status e host_c = cudaSuccess"
  shows "main e = Some (0,
           [Malloc host_a True, Malloc host_b True, Malloc host_c True,
            CudaMalloc device_a cudaSuccess, CudaMalloc device_b cudaSuccess,
            CudaMalloc device_c cudaSuccess,
            CudaMemcpy device_a host_a cudaSuccess, CudaMemcpy device_b host_b cudaSuccess,
            Launch (unat number_of_blocks) MAX_NUMBER_OF_THREADS] @
           (if cudaGetLastError e \<noteq> cudaSuccess
            then [Printf (''Error: '' @ cudaGetErrorString e (cudaGetLastError e) @ ''\<newline>'')]
            else []) @
           [CudaMemcpy host_c device_c cudaSuccess,
            Printf (snd (verdict_of (filled (rand_numbers e))
                          (filled (sdrop VECTOR_LENGTH (rand_numbers e)))
                          (if cudaGetLastError e = cudaSuccess
                           then sum_buffer (filled (rand_numbers e))
                                  (filled (sdrop VECTOR_LENGTH (rand_numbers e)))
                           else fresh e device_c))),
            Free host_a, Free host_b, Free host_c,
            CudaFree device_a, CudaFree device_b, CudaFree device_c,
            CudaDeviceReset])"
proof (cases "cudaGetLastError e = cudaSuccess")
  case True
  with assms show ?thesis by (simp add: main_simps case_prod_beta)
next
  case False
  with assms show ?thesis by (simp add: main_simps case_prod_beta)
qed




text \<open>
  Claim C8. When the allocations and the two copies to the device succeed and
  \<^verbatim>\<open>cudaGetLastError\<close> reports a fault after the launch, \<^verbatim>\<open>main\<close> prints the fault and goes on:
  the next call is the copy of \<^verbatim>\<open>device_c\<close> back to \<^verbatim>\<open>host_c\<close>, and the exit status is decided by
  that copy alone.
\<close>

theorem launch_fault_reported_and_copy_attempted:
  assumes "malloc_ok e host_a" "malloc_ok e host_b" "malloc_ok e host_c"
    and "cudaMalloc_status e device_a = cudaSuccess"
    and "cudaMalloc_status e device_b = cudaSuccess"
    and "cudaMalloc_status e device_c = cudaSuccess"
    and "cudaMemcpy_status e device_a = cudaSuccess"
    and "cudaMemcpy_status e device_b = cudaSuccess"
    and "cudaGetLastError e \<noteq> cudaSuccess"
  shows "\<exists>st before after.
           main e = Some (st, before @
             [Launch (unat number_of_blocks) MAX_NUMBER_OF_THREADS,
              Printf (''Error: '' @ cudaGetErrorString e (cudaGetLastError e) @ ''\<newline>''),
              CudaMemcpy host_c device_c (cudaMemcpy_status e host_c)] @ after) \<and>
           (st = 0 \<longleftrightarrow> cudaMemcpy_status e host_c = cudaSuccess)"
proof (cases "cudaMemcpy_status e host_c = cudaSuccess")
  case True
  let ?before = "[Malloc host_a True, Malloc host_b True, Malloc host_c True,
            CudaMalloc device_a cudaSuccess, CudaMalloc device_b cudaSuccess,
            CudaMalloc device_c cudaSuccess,
            CudaMemcpy device_a host_a cudaSuccess, CudaMemcpy device_b host_b cudaSuccess]"
  let ?after = "[Printf (snd (verdict_of (filled (rand_numbers e))
                          (filled (sdrop VECTOR_LENGTH (rand_numbers e)))
                          (fresh e device_c))),
            Free host_a, Free host_b, Free host_c,
            CudaFree device_a, CudaFree device_b, CudaFree device_c,
            CudaDeviceReset]"
  have "main e = Some (0, ?before @
             [Launch (unat number_of_blocks) MAX_NUMBER_OF_THREADS,
              Printf (''Error: '' @ cudaGetErrorString e (cudaGetLastError e) @ ''\<newline>''),
              CudaMemcpy host_c device_c (cudaMemcpy_status e host_c)] @ ?after)"
    using assms True by (simp add: main_all_succeed)
  with True show ?thesis by blast
next
  case False
  let ?before = "[Malloc host_a True, Malloc host_b True, Malloc host_c True,
            CudaMalloc device_a cudaSuccess, CudaMalloc device_b cudaSuccess,
            CudaMalloc device_c cudaSuccess,
            CudaMemcpy device_a host_a cudaSuccess, CudaMemcpy device_b host_b cudaSuccess]"
  let ?after = "[Printf ''\<newline>cudaMemcpy failed!'',
            Free host_a, Free host_b, Free host_c,
            CudaFree device_a, CudaFree device_b, CudaFree device_c]"
  have "main e = Some (- 1, ?before @
             [Launch (unat number_of_blocks) MAX_NUMBER_OF_THREADS,
              Printf (''Error: '' @ cudaGetErrorString e (cudaGetLastError e) @ ''\<newline>''),
              CudaMemcpy host_c device_c (cudaMemcpy_status e host_c)] @ ?after)"
    using assms False by (simp add: main_copy_c_fails)
  with False show ?thesis by (metis zero_neq_neg_one)
qed

lemma filled_sconst: "filled (sconst n) = replicate VECTOR_LENGTH (of_nat (n mod 100 + 1))"
  by (simp add: filled_def map_replicate_const)

lemma data_launch_fails_env:
  "fresh launch_fails_env buf = replicate VECTOR_LENGTH 0"
  "filled (rand_numbers launch_fails_env) = replicate VECTOR_LENGTH 42"
  "filled (sdrop VECTOR_LENGTH (rand_numbers launch_fails_env)) = replicate VECTOR_LENGTH 42"
  by (simp_all add: launch_fails_env_def quiet_env_def fresh_def filled_sconst map_replicate_const)

lemma verdict_launch_fails:
  "verdict_of (replicate VECTOR_LENGTH 42) (replicate VECTOR_LENGTH 42) (replicate VECTOR_LENGTH 0) =
   (- 1, ''\<newline>wrong results\<newline>'')"
proof -
  have "\<not> (\<forall>i<VECTOR_LENGTH. replicate VECTOR_LENGTH (42 :: c_int) ! i +
      replicate VECTOR_LENGTH 42 ! i = replicate VECTOR_LENGTH (0 :: c_int) ! i)"
    by (auto simp: VECTOR_LENGTH_def intro!: exI [of _ 0])
  then show ?thesis
    by (simp add: verdict_of_def)
qed

lemma main_launch_fails_env:
  "main launch_fails_env = Some (0,
     [Malloc host_a True, Malloc host_b True, Malloc host_c True,
      CudaMalloc device_a cudaSuccess, CudaMalloc device_b cudaSuccess,
      CudaMalloc device_c cudaSuccess,
      CudaMemcpy device_a host_a cudaSuccess, CudaMemcpy device_b host_b cudaSuccess,
      Launch 977 1024,
      Printf ''Error: invalid configuration argument\<newline>'',
      CudaMemcpy host_c device_c cudaSuccess,
      Printf ''\<newline>wrong results\<newline>'',
      Free host_a, Free host_b, Free host_c,
      CudaFree device_a, CudaFree device_b, CudaFree device_c,
      CudaDeviceReset])"
proof -
  have h: "malloc_ok launch_fails_env host_a" "malloc_ok launch_fails_env host_b"
    "malloc_ok launch_fails_env host_c"
    "cudaMalloc_status launch_fails_env device_a = cudaSuccess"
    "cudaMalloc_status launch_fails_env device_b = cudaSuccess"
    "cudaMalloc_status launch_fails_env device_c = cudaSuccess"
    "cudaMemcpy_status launch_fails_env device_a = cudaSuccess"
    "cudaMemcpy_status launch_fails_env device_b = cudaSuccess"
    "cudaMemcpy_status launch_fails_env host_c = cudaSuccess"
    by (simp_all add: launch_fails_env_def quiet_env_def)
  have v: "snd (verdict_of (filled (rand_numbers launch_fails_env))
                  (filled (sdrop VECTOR_LENGTH (rand_numbers launch_fails_env)))
                  (fresh launch_fails_env device_c)) = ''\<newline>wrong results\<newline>''"
    by (simp add: data_launch_fails_env verdict_launch_fails)
  have e: "cudaGetLastError launch_fails_env \<noteq> cudaSuccess"
    "cudaGetErrorString launch_fails_env (cudaGetLastError launch_fails_env) =
      ''invalid configuration argument''"
    by (simp_all add: launch_fails_env_def quiet_env_def)
  show ?thesis
    unfolding main_all_succeed [OF h]
    by (simp add: v e unat_number_of_blocks MAX_NUMBER_OF_THREADS_def)
qed

text \<open>
  A run whose launch is refused (status 9) while everything else succeeds: the fault is
  printed, the result is copied back, \<^verbatim>\<open>compare\<close> finds the mismatch, and the status is 0.
\<close>

theorem launch_fault_reported_and_copy_attempted_witness:
  "malloc_ok launch_fails_env host_a \<and> malloc_ok launch_fails_env host_b \<and>
   malloc_ok launch_fails_env host_c \<and>
   cudaMalloc_status launch_fails_env device_a = cudaSuccess \<and>
   cudaMalloc_status launch_fails_env device_b = cudaSuccess \<and>
   cudaMalloc_status launch_fails_env device_c = cudaSuccess \<and>
   cudaMemcpy_status launch_fails_env device_a = cudaSuccess \<and>
   cudaMemcpy_status launch_fails_env device_b = cudaSuccess \<and>
   cudaGetLastError launch_fails_env \<noteq> cudaSuccess \<and>
   main launch_fails_env = Some (0,
     [Malloc host_a True, Malloc host_b True, Malloc host_c True,
      CudaMalloc device_a cudaSuccess, CudaMalloc device_b cudaSuccess,
      CudaMalloc device_c cudaSuccess,
      CudaMemcpy device_a host_a cudaSuccess, CudaMemcpy device_b host_b cudaSuccess,
      Launch 977 1024,
      Printf ''Error: invalid configuration argument\<newline>'',
      CudaMemcpy host_c device_c cudaSuccess,
      Printf ''\<newline>wrong results\<newline>'',
      Free host_a, Free host_b, Free host_c,
      CudaFree device_a, CudaFree device_b, CudaFree device_c,
      CudaDeviceReset])"
proof -
  have h: "malloc_ok launch_fails_env host_a" "malloc_ok launch_fails_env host_b"
    "malloc_ok launch_fails_env host_c"
    "cudaMalloc_status launch_fails_env device_a = cudaSuccess"
    "cudaMalloc_status launch_fails_env device_b = cudaSuccess"
    "cudaMalloc_status launch_fails_env device_c = cudaSuccess"
    "cudaMemcpy_status launch_fails_env device_a = cudaSuccess"
    "cudaMemcpy_status launch_fails_env device_b = cudaSuccess"
    "cudaGetLastError launch_fails_env \<noteq> cudaSuccess"
    by (simp_all add: launch_fails_env_def quiet_env_def)
  from launch_fault_reported_and_copy_attempted [OF h]
  obtain st before after where "main launch_fails_env = Some (st, before @
        [Launch (unat number_of_blocks) MAX_NUMBER_OF_THREADS,
         Printf (''Error: '' @ cudaGetErrorString launch_fails_env
           (cudaGetLastError launch_fails_env) @ ''\<newline>''),
         CudaMemcpy host_c device_c (cudaMemcpy_status launch_fails_env host_c)] @ after)"
    by blast
  moreover have "main launch_fails_env = Some (0,
     [Malloc host_a True, Malloc host_b True, Malloc host_c True,
      CudaMalloc device_a cudaSuccess, CudaMalloc device_b cudaSuccess,
      CudaMalloc device_c cudaSuccess,
      CudaMemcpy device_a host_a cudaSuccess, CudaMemcpy device_b host_b cudaSuccess,
      Launch 977 1024,
      Printf ''Error: invalid configuration argument\<newline>'',
      CudaMemcpy host_c device_c cudaSuccess,
      Printf ''\<newline>wrong results\<newline>'',
      Free host_a, Free host_b, Free host_c,
      CudaFree device_a, CudaFree device_b, CudaFree device_c,
      CudaDeviceReset])"
    by (simp add: main_launch_fails_env)
  ultimately show ?thesis
    using h by simp
qed

text \<open>
  Claim C10. Whenever every host allocation, device allocation and copy succeeds, \<^verbatim>\<open>main\<close>
  returns 0, whatever \<^verbatim>\<open>compare\<close> finds: the value \<^verbatim>\<open>compare\<close> returns is not used.
\<close>

theorem exit_status_ignores_verdict:
  assumes "malloc_ok e host_a" "malloc_ok e host_b" "malloc_ok e host_c"
    and "cudaMalloc_status e device_a = cudaSuccess"
    and "cudaMalloc_status e device_b = cudaSuccess"
    and "cudaMalloc_status e device_c = cudaSuccess"
    and "cudaMemcpy_status e device_a = cudaSuccess"
    and "cudaMemcpy_status e device_b = cudaSuccess"
    and "cudaMemcpy_status e host_c = cudaSuccess"
  shows "map_option fst (main e) = Some 0"
  using assms by (simp add: main_all_succeed)

text \<open>
  A run in which everything succeeds but the launch: \<^verbatim>\<open>host_c\<close> receives the untouched
  \<^verbatim>\<open>device_c\<close>, \<^verbatim>\<open>compare\<close> returns \<open>-1\<close> on the three host buffers and prints its message, and
  \<^verbatim>\<open>main\<close> still returns 0.
\<close>

theorem exit_status_ignores_verdict_witness:
  "malloc_ok launch_fails_env host_a \<and> malloc_ok launch_fails_env host_b \<and>
   malloc_ok launch_fails_env host_c \<and>
   cudaMalloc_status launch_fails_env device_a = cudaSuccess \<and>
   cudaMalloc_status launch_fails_env device_b = cudaSuccess \<and>
   cudaMalloc_status launch_fails_env device_c = cudaSuccess \<and>
   cudaMemcpy_status launch_fails_env device_a = cudaSuccess \<and>
   cudaMemcpy_status launch_fails_env device_b = cudaSuccess \<and>
   cudaMemcpy_status launch_fails_env host_c = cudaSuccess \<and>
   compare (filled (rand_numbers launch_fails_env))
     (filled (sdrop VECTOR_LENGTH (rand_numbers launch_fails_env)))
     (fresh launch_fails_env device_c) = Some (- 1, ''\<newline>wrong results\<newline>'') \<and>
   map_option fst (main launch_fails_env) = Some 0 \<and>
   Printf ''\<newline>wrong results\<newline>'' \<in> set (snd (the (main launch_fails_env)))"
proof -
  have h: "malloc_ok launch_fails_env host_a" "malloc_ok launch_fails_env host_b"
    "malloc_ok launch_fails_env host_c"
    "cudaMalloc_status launch_fails_env device_a = cudaSuccess"
    "cudaMalloc_status launch_fails_env device_b = cudaSuccess"
    "cudaMalloc_status launch_fails_env device_c = cudaSuccess"
    "cudaMemcpy_status launch_fails_env device_a = cudaSuccess"
    "cudaMemcpy_status launch_fails_env device_b = cudaSuccess"
    "cudaMemcpy_status launch_fails_env host_c = cudaSuccess"
    by (simp_all add: launch_fails_env_def quiet_env_def)
  have "compare (filled (rand_numbers launch_fails_env))
     (filled (sdrop VECTOR_LENGTH (rand_numbers launch_fails_env)))
     (fresh launch_fails_env device_c) = Some (- 1, ''\<newline>wrong results\<newline>'')"
    by (simp add: compare_verdict) (simp add: data_launch_fails_env verdict_launch_fails)
  then show ?thesis
    using h exit_status_ignores_verdict [OF h] by (simp add: main_launch_fails_env)
qed

section \<open>The scalar addition\<close>

lemma sint_succ:
  fixes j M :: c_int
  assumes "sint j < sint M"
  shows "sint (j + 1) = sint j + 1"
proof -
  have "sint M < 2 ^ 31"
    using sint_lt [of M] by simp
  moreover have "- (2 ^ 31) \<le> sint j"
    using sint_ge [of j] by simp
  ultimately show ?thesis
    using assms by (simp add: sint_word_ariths signed_take_bit_int_eq_self)
qed

lemma Add_default_loop_result:
  assumes "0 \<le> sint j"
    and "nat (sint M) \<le> length (Y1 s)" "nat (sint M) \<le> length (X1 s)"
    and "nat (sint M) \<le> length (X2 s)"
  shows "\<exists>s'. Add_default_loop F j M s = Some s' \<and>
           X1 s' = X1 s \<and> X2 s' = X2 s \<and> test2 s' = test2 s \<and>
           length (Y1 s') = length (Y1 s) \<and>
           (\<forall>i<length (Y1 s). Y1 s' ! i =
              (if nat (sint j) \<le> i \<and> i < nat (sint M)
               then fadd F (X1 s ! i) (X2 s ! i) else Y1 s ! i))"
  using assms
proof (induction F j M s rule: Add_default_loop.induct)
  case (1 F j M s)
  show ?case
  proof (cases "sint j < sint M")
    case False
    then show ?thesis
      by (auto simp: Add_default_loop.simps [of F j])
  next
    case True
    let ?n = "nat (sint j)"
    let ?s1 = "s\<lparr>Y1 := (Y1 s)[?n := fadd F (X1 s ! ?n) (X2 s ! ?n)]\<rparr>"
    have n: "?n < nat (sint M)"
      using True "1.prems"(1) by simp
    then have inb: "?n < length (Y1 s)" "?n < length (X1 s)" "?n < length (X2 s)"
      using "1.prems"(2-4) by linarith+
    have succ: "sint (j + 1) = sint j + 1"
      using True by (rule sint_succ)
    then have n1: "nat (sint (j + 1)) = Suc ?n"
      using "1.prems"(1) by simp
    have "\<exists>s'. Add_default_loop F (j + 1) M ?s1 = Some s' \<and>
           X1 s' = X1 ?s1 \<and> X2 s' = X2 ?s1 \<and> test2 s' = test2 ?s1 \<and>
           length (Y1 s') = length (Y1 ?s1) \<and>
           (\<forall>i<length (Y1 ?s1). Y1 s' ! i =
              (if nat (sint (j + 1)) \<le> i \<and> i < nat (sint M)
               then fadd F (X1 ?s1 ! i) (X2 ?s1 ! i) else Y1 ?s1 ! i))"
      using True inb "1.prems" succ by (intro "1.IH") simp_all
    then obtain s' where run: "Add_default_loop F (j + 1) M ?s1 = Some s'"
      and same: "X1 s' = X1 s" "X2 s' = X2 s" "test2 s' = test2 s"
      and len: "length (Y1 s') = length (Y1 s)"
      and val: "\<forall>i<length (Y1 s). Y1 s' ! i =
              (if Suc ?n \<le> i \<and> i < nat (sint M)
               then fadd F (X1 s ! i) (X2 s ! i) else Y1 ?s1 ! i)"
      unfolding n1 by auto
    have "Add_default_loop F j M s = Some s'"
      using True inb "1.prems"(1) run by (simp add: Add_default_loop.simps [of F j])
    moreover have "\<forall>i<length (Y1 s). Y1 s' ! i =
              (if ?n \<le> i \<and> i < nat (sint M)
               then fadd F (X1 s ! i) (X2 s ! i) else Y1 s ! i)"
    proof (intro allI impI)
      fix i assume i: "i < length (Y1 s)"
      show "Y1 s' ! i = (if ?n \<le> i \<and> i < nat (sint M)
               then fadd F (X1 s ! i) (X2 s ! i) else Y1 s ! i)"
        using val [rule_format, OF i] i n by (cases "i = ?n") auto
    qed
    ultimately show ?thesis
      using same len by blast
  qed
qed

lemma Add_default_result:
  assumes "nat (sint M) \<le> length (Y1 s)" "nat (sint M) \<le> length (X1 s)"
    and "nat (sint M) \<le> length (X2 s)"
  shows "\<exists>s'. Add_default F M s = Some (0, s') \<and>
           X1 s' = X1 s \<and> X2 s' = X2 s \<and> test2 s' = test2 s \<and>
           length (Y1 s') = length (Y1 s) \<and>
           (\<forall>i<nat (sint M). Y1 s' ! i = fadd F (X1 s ! i) (X2 s ! i)) \<and>
           (\<forall>i. nat (sint M) \<le> i \<and> i < length (Y1 s) \<longrightarrow> Y1 s' ! i = Y1 s ! i)"
proof -
  obtain s' where run: "Add_default_loop F 0 M s = Some s'"
    and same: "X1 s' = X1 s" "X2 s' = X2 s" "test2 s' = test2 s"
    and len: "length (Y1 s') = length (Y1 s)"
    and val: "\<forall>i<length (Y1 s). Y1 s' ! i =
              (if nat (sint (0 :: c_int)) \<le> i \<and> i < nat (sint M)
               then fadd F (X1 s ! i) (X2 s ! i) else Y1 s ! i)"
    using Add_default_loop_result [of 0 M s F] assms by auto
  have "Y1 s' ! i = fadd F (X1 s ! i) (X2 s ! i)" if "i < nat (sint M)" for i
    using val [rule_format, of i] that assms(1) by simp
  moreover have "Y1 s' ! i = Y1 s ! i" if "nat (sint M) \<le> i \<and> i < length (Y1 s)" for i
    using val [rule_format, of i] that by simp
  ultimately show ?thesis
    using run same len by (simp add: Add_default_def)
qed

text \<open>
  Claim C6. For every length \<open>M\<close> (read as \<^verbatim>\<open>int\<close>; a negative \<open>M\<close> counts as 0) and arrays that
  hold at least \<open>M\<close> elements, \<^verbatim>\<open>Add_default\<close> returns 0 and leaves
  \<open>Y1[j] = X1[j] + X2[j]\<close>, the \<^verbatim>\<open>float\<close> sum, at every index \<open>j < M\<close>. It changes nothing else: the
  elements of \<^verbatim>\<open>Y1\<close> from \<open>M\<close> on and the other three arrays are as before.
\<close>

theorem Add_default_adds:
  assumes "nat (sint M) \<le> length (Y1 s)" "nat (sint M) \<le> length (X1 s)"
    and "nat (sint M) \<le> length (X2 s)"
  shows "\<exists>s'. Add_default F M s = Some (0, s') \<and>
           X1 s' = X1 s \<and> X2 s' = X2 s \<and> test2 s' = test2 s \<and>
           length (Y1 s') = length (Y1 s) \<and>
           (\<forall>j<nat (sint M). Y1 s' ! j = fadd F (X1 s ! j) (X2 s ! j)) \<and>
           (\<forall>j. nat (sint M) \<le> j \<and> j < length (Y1 s) \<longrightarrow> Y1 s' ! j = Y1 s ! j)"
  using assms by (rule Add_default_result)

text \<open>A run on length 2 with arrays of three elements: the third element of \<^verbatim>\<open>Y1\<close> stays.\<close>

lemma Add_default_three:
  "Add_default exact_arithmetic 2 \<lparr>X1 = [1, 2, 3], X2 = [4, 5, 6], Y1 = [0, 0, 9], test2 = []\<rparr> =
   Some (0, \<lparr>X1 = [1, 2, 3], X2 = [4, 5, 6], Y1 = [5, 7, 9], test2 = []\<rparr>)"
  by (simp add: Add_default_def Add_default_loop.simps exact_arithmetic_def)

theorem Add_default_adds_witness:
  "nat (sint (2 :: c_int)) \<le> length [0, 0, 9 :: real] \<and>
   Add_default exact_arithmetic 2 \<lparr>X1 = [1, 2, 3], X2 = [4, 5, 6], Y1 = [0, 0, 9], test2 = []\<rparr> =
   Some (0, \<lparr>X1 = [1, 2, 3], X2 = [4, 5, 6], Y1 = [5, 7, 9], test2 = []\<rparr>)"
  using Add_default_adds [of 2 "\<lparr>X1 = [1, 2, 3], X2 = [4, 5, 6], Y1 = [0, 0, 9 :: real], test2 = []\<rparr>"
      exact_arithmetic]
  by (simp add: Add_default_three)


section \<open>The initialisation\<close>

lemma unat_succ:
  fixes j M :: c_uint
  assumes "j \<le> M" "j \<noteq> M"
  shows "unat (j + 1) = Suc (unat j)" and "j + 1 \<le> M"
proof -
  have "unat j \<le> unat M"
    using assms(1) by (simp add: word_le_nat_alt)
  moreover have "unat j \<noteq> unat M"
    using assms(2) by (simp add: word_unat_eq_iff)
  ultimately have lt: "unat j < unat M"
    by simp
  have "unat M < 2 ^ 32"
    using unsigned_less [of M, where 'a = nat] by simp
  then show "unat (j + 1) = Suc (unat j)"
    using lt by (simp add: unat_word_ariths)
  then show "j + 1 \<le> M"
    using lt by (simp add: word_le_nat_alt)
qed

lemma initialization_Add_loop_result:
  assumes "j \<le> M"
    and "unat M \<le> length (X1 s)" "unat M \<le> length (X2 s)"
    and "unat M \<le> length (Y1 s)" "unat M \<le> length (test2 s)"
  shows "\<exists>s'. initialization_Add_loop F e r j M s = Some s' \<and>
           length (X1 s') = length (X1 s) \<and> length (X2 s') = length (X2 s) \<and>
           length (Y1 s') = length (Y1 s) \<and> length (test2 s') = length (test2 s) \<and>
           (\<forall>i. unat j \<le> i \<and> i < unat M \<longrightarrow>
              X1 s' ! i = fadd F (of_uint F (of_nat i mod 7)) r \<and>
              X2 s' ! i = fadd F (of_uint F (of_nat i mod 13)) e \<and>
              Y1 s' ! i = of_literal F 0 \<and> test2 s' ! i = of_literal F 0) \<and>
           (\<forall>i. i < unat j \<or> unat M \<le> i \<longrightarrow>
              X1 s' ! i = X1 s ! i \<and> X2 s' ! i = X2 s ! i \<and>
              Y1 s' ! i = Y1 s ! i \<and> test2 s' ! i = test2 s ! i)"
  using assms
proof (induction F e r j M s rule: initialization_Add_loop.induct)
  case (1 F e r j M s)
  show ?case
  proof (cases "j = M")
    case True
    then show ?thesis
      by (auto simp: initialization_Add_loop.simps [of F e r M])
  next
    case False
    let ?n = "unat j"
    let ?s1 = "s\<lparr>Y1 := (Y1 s)[?n := of_literal F 0.0],
                   test2 := (test2 s)[?n := of_literal F 0.0],
                   X1 := (X1 s)[?n := fadd F (of_uint F (j mod 7)) r],
                   X2 := (X2 s)[?n := fadd F (of_uint F (j mod 13)) e]\<rparr>"
    have succ: "unat (j + 1) = Suc ?n" "j + 1 \<le> M"
      using "1.prems"(1) False by (rule unat_succ)+
    have n: "?n < unat M"
      using succ by (simp add: word_le_nat_alt)
    have inb: "?n < length (Y1 s)" "?n < length (test2 s)" "?n < length (X1 s)" "?n < length (X2 s)"
      using n "1.prems"(2-5) by linarith+
    have "\<exists>s'. initialization_Add_loop F e r (j + 1) M ?s1 = Some s' \<and>
           length (X1 s') = length (X1 ?s1) \<and> length (X2 s') = length (X2 ?s1) \<and>
           length (Y1 s') = length (Y1 ?s1) \<and> length (test2 s') = length (test2 ?s1) \<and>
           (\<forall>i. unat (j + 1) \<le> i \<and> i < unat M \<longrightarrow>
              X1 s' ! i = fadd F (of_uint F (of_nat i mod 7)) r \<and>
              X2 s' ! i = fadd F (of_uint F (of_nat i mod 13)) e \<and>
              Y1 s' ! i = of_literal F 0 \<and> test2 s' ! i = of_literal F 0) \<and>
           (\<forall>i. i < unat (j + 1) \<or> unat M \<le> i \<longrightarrow>
              X1 s' ! i = X1 ?s1 ! i \<and> X2 s' ! i = X2 ?s1 ! i \<and>
              Y1 s' ! i = Y1 ?s1 ! i \<and> test2 s' ! i = test2 ?s1 ! i)"
      using False inb succ(2) "1.prems"(2-5) by (intro "1.IH") simp_all
    then obtain s' where run: "initialization_Add_loop F e r (j + 1) M ?s1 = Some s'"
      and len1: "length (X1 s') = length (X1 ?s1)" "length (X2 s') = length (X2 ?s1)"
        "length (Y1 s') = length (Y1 ?s1)" "length (test2 s') = length (test2 ?s1)"
      and new1: "\<forall>i. unat (j + 1) \<le> i \<and> i < unat M \<longrightarrow>
              X1 s' ! i = fadd F (of_uint F (of_nat i mod 7)) r \<and>
              X2 s' ! i = fadd F (of_uint F (of_nat i mod 13)) e \<and>
              Y1 s' ! i = of_literal F 0 \<and> test2 s' ! i = of_literal F 0"
      and old1: "\<forall>i. i < unat (j + 1) \<or> unat M \<le> i \<longrightarrow>
              X1 s' ! i = X1 ?s1 ! i \<and> X2 s' ! i = X2 ?s1 ! i \<and>
              Y1 s' ! i = Y1 ?s1 ! i \<and> test2 s' ! i = test2 ?s1 ! i"
      by (elim exE conjE)
    have len: "length (X1 s') = length (X1 s)" "length (X2 s') = length (X2 s)"
        "length (Y1 s') = length (Y1 s)" "length (test2 s') = length (test2 s)"
      using len1 by simp_all
    have new: "\<forall>i. Suc ?n \<le> i \<and> i < unat M \<longrightarrow>
              X1 s' ! i = fadd F (of_uint F (of_nat i mod 7)) r \<and>
              X2 s' ! i = fadd F (of_uint F (of_nat i mod 13)) e \<and>
              Y1 s' ! i = of_literal F 0 \<and> test2 s' ! i = of_literal F 0"
      using new1 unfolding succ(1) .
    have old: "\<forall>i. i < Suc ?n \<or> unat M \<le> i \<longrightarrow>
              X1 s' ! i = (X1 s)[?n := fadd F (of_uint F (j mod 7)) r] ! i \<and>
              X2 s' ! i = (X2 s)[?n := fadd F (of_uint F (j mod 13)) e] ! i \<and>
              Y1 s' ! i = (Y1 s)[?n := of_literal F 0] ! i \<and>
              test2 s' ! i = (test2 s)[?n := of_literal F 0] ! i"
      using old1 unfolding succ(1) by simp
    have here: "X1 s' ! ?n = fadd F (of_uint F (of_nat ?n mod 7)) r \<and>
              X2 s' ! ?n = fadd F (of_uint F (of_nat ?n mod 13)) e \<and>
              Y1 s' ! ?n = of_literal F 0 \<and> test2 s' ! ?n = of_literal F 0"
      using old [rule_format, of ?n] inb by simp
    have "initialization_Add_loop F e r j M s = Some s'"
      using False inb run by (simp add: initialization_Add_loop.simps [of F e r j])
    moreover have "\<forall>i. ?n \<le> i \<and> i < unat M \<longrightarrow>
              X1 s' ! i = fadd F (of_uint F (of_nat i mod 7)) r \<and>
              X2 s' ! i = fadd F (of_uint F (of_nat i mod 13)) e \<and>
              Y1 s' ! i = of_literal F 0 \<and> test2 s' ! i = of_literal F 0"
    proof (intro allI impI)
      fix i assume i: "?n \<le> i \<and> i < unat M"
      show "X1 s' ! i = fadd F (of_uint F (of_nat i mod 7)) r \<and>
              X2 s' ! i = fadd F (of_uint F (of_nat i mod 13)) e \<and>
              Y1 s' ! i = of_literal F 0 \<and> test2 s' ! i = of_literal F 0"
      proof (cases "i = ?n")
        case True
        then show ?thesis using here by simp
      next
        case False
        then show ?thesis using new [rule_format, of i] i by simp
      qed
    qed
    moreover have "\<forall>i. i < ?n \<or> unat M \<le> i \<longrightarrow>
              X1 s' ! i = X1 s ! i \<and> X2 s' ! i = X2 s ! i \<and>
              Y1 s' ! i = Y1 s ! i \<and> test2 s' ! i = test2 s ! i"
    proof (intro allI impI)
      fix i assume i: "i < ?n \<or> unat M \<le> i"
      then have "i \<noteq> ?n" using n by auto
      then show "X1 s' ! i = X1 s ! i \<and> X2 s' ! i = X2 s ! i \<and>
              Y1 s' ! i = Y1 s ! i \<and> test2 s' ! i = test2 s ! i"
        using old [rule_format, of i] i by auto
    qed
    ultimately show ?thesis
      using len by blast
  qed
qed

text \<open>
  Claim C7. On arrays that hold at least \<open>M\<close> elements, \<^verbatim>\<open>initialization_Add\<close> ends with, at
  every index \<open>j\<close> in \<open>[0, M)\<close>: \<open>X1[j] = (j mod 7) + r\<close> and \<open>X2[j] = (j mod 13) + e\<close>, the
  \<^verbatim>\<open>float\<close> sums of the converted remainder and of the \<^verbatim>\<open>float\<close> constants \<open>r = 0.11\<close> and
  \<open>e = 0.1234\<close>, and \<open>Y1[j] = test2[j] = 0\<close>. Elements from \<open>M\<close> on are not touched.
\<close>

theorem initialization_Add_fills:
  assumes "unat M \<le> length (X1 s)" "unat M \<le> length (X2 s)"
    and "unat M \<le> length (Y1 s)" "unat M \<le> length (test2 s)"
  shows "\<exists>s'. initialization_Add F M s = Some s' \<and>
           length (X1 s') = length (X1 s) \<and> length (X2 s') = length (X2 s) \<and>
           length (Y1 s') = length (Y1 s) \<and> length (test2 s') = length (test2 s) \<and>
           (\<forall>j<M. X1 s' ! unat j = fadd F (of_uint F (j mod 7)) (of_literal F 0.11) \<and>
                  X2 s' ! unat j = fadd F (of_uint F (j mod 13)) (of_literal F 0.1234) \<and>
                  Y1 s' ! unat j = of_literal F 0 \<and> test2 s' ! unat j = of_literal F 0) \<and>
           (\<forall>i. unat M \<le> i \<longrightarrow>
              X1 s' ! i = X1 s ! i \<and> X2 s' ! i = X2 s ! i \<and>
              Y1 s' ! i = Y1 s ! i \<and> test2 s' ! i = test2 s ! i)"
proof -
  let ?e = "of_literal F 0.1234" and ?r = "of_literal F 0.11"
  have "(0 :: c_uint) \<le> M"
    by simp
  from initialization_Add_loop_result [OF this assms, of F ?e ?r]
  obtain s' where run: "initialization_Add_loop F ?e ?r 0 M s = Some s'"
    and len: "length (X1 s') = length (X1 s)" "length (X2 s') = length (X2 s)"
      "length (Y1 s') = length (Y1 s)" "length (test2 s') = length (test2 s)"
    and new: "\<forall>i. unat (0 :: c_uint) \<le> i \<and> i < unat M \<longrightarrow>
              X1 s' ! i = fadd F (of_uint F (of_nat i mod 7)) ?r \<and>
              X2 s' ! i = fadd F (of_uint F (of_nat i mod 13)) ?e \<and>
              Y1 s' ! i = of_literal F 0 \<and> test2 s' ! i = of_literal F 0"
    and old: "\<forall>i. i < unat (0 :: c_uint) \<or> unat M \<le> i \<longrightarrow>
              X1 s' ! i = X1 s ! i \<and> X2 s' ! i = X2 s ! i \<and>
              Y1 s' ! i = Y1 s ! i \<and> test2 s' ! i = test2 s ! i"
    by (elim exE conjE)
  have "X1 s' ! unat j = fadd F (of_uint F (j mod 7)) ?r \<and>
        X2 s' ! unat j = fadd F (of_uint F (j mod 13)) ?e \<and>
        Y1 s' ! unat j = of_literal F 0 \<and> test2 s' ! unat j = of_literal F 0"
    if "j < M" for j
  proof -
    have "unat j < unat M"
      using that by (simp add: word_less_nat_alt)
    then show ?thesis
      using new [rule_format, of "unat j"] by simp
  qed
  moreover have "X1 s' ! i = X1 s ! i \<and> X2 s' ! i = X2 s ! i \<and>
              Y1 s' ! i = Y1 s ! i \<and> test2 s' ! i = test2 s ! i" if "unat M \<le> i" for i
    using old [rule_format, of i] that by simp
  moreover have "initialization_Add F M s = Some s'"
    using run by (simp add: initialization_Add_def)
  ultimately show ?thesis
    using len by blast
qed

text \<open>
  A run on length 2 with arrays of three elements, unevaluated: the first two elements of
  each array are replaced, the third stays.
\<close>

theorem initialization_Add_fills_witness:
  "unat (2 :: c_int) \<le> length [Literal 9, Literal 9, Literal 9] \<and>
   initialization_Add unevaluated 2
     \<lparr>X1 = [Literal 9, Literal 9, Literal 9], X2 = [Literal 9, Literal 9, Literal 9],
      Y1 = [Literal 9, Literal 9, Literal 9], test2 = [Literal 9, Literal 9, Literal 9]\<rparr> =
   Some \<lparr>X1 = [Fadd (Of_uint 0) (Literal 0.11), Fadd (Of_uint 1) (Literal 0.11), Literal 9],
         X2 = [Fadd (Of_uint 0) (Literal 0.1234), Fadd (Of_uint 1) (Literal 0.1234), Literal 9],
         Y1 = [Literal 0, Literal 0, Literal 9],
         test2 = [Literal 0, Literal 0, Literal 9]\<rparr>"
  using initialization_Add_fills [of 2
      "\<lparr>X1 = [Literal 9, Literal 9, Literal 9], X2 = [Literal 9, Literal 9, Literal 9],
        Y1 = [Literal 9, Literal 9, Literal 9], test2 = [Literal 9, Literal 9, Literal 9]\<rparr>"
      unevaluated]
  by (simp add: initialization_Add_def initialization_Add_loop.simps unevaluated_def Let_def)


section \<open>The SIMD skeletons\<close>

lemma stub_vs_default:
  assumes "nat (sint M) \<le> length (Y1 s)" "nat (sint M) \<le> length (X1 s)"
    and "nat (sint M) \<le> length (X2 s)"
  shows "(\<forall>j<nat (sint M). result_Y1 (Some (0, s)) j = result_Y1 (Add_default F M s) j) \<longleftrightarrow>
         (\<forall>j<nat (sint M). Y1 s ! j = fadd F (X1 s ! j) (X2 s ! j))"
proof -
  obtain s' where run: "Add_default F M s = Some (0, s')"
    and val: "\<forall>j<nat (sint M). Y1 s' ! j = fadd F (X1 s ! j) (X2 s ! j)"
    using Add_default_result [OF assms, of F] by blast
  show ?thesis
    using val by (simp add: run result_Y1_def)
qed

text \<open>
  Claim C1, as amended. \<^verbatim>\<open>Add_SSE\<close> is a skeleton left to be filled in: for every length and
  all inputs it returns 0 and leaves \<^verbatim>\<open>Y1\<close> and the other arrays as they were. So its output
  equals that of \<^verbatim>\<open>Add_default\<close> on \<open>[0, M)\<close> if and only if \<^verbatim>\<open>Y1\<close> held \<open>X1[j] + X2[j]\<close> at
  every \<open>j < M\<close> before the call.
\<close>

theorem Add_SSE_writes_nothing:
  "Add_SSE F M s = Some (0, s) \<and>
   (nat (sint M) \<le> length (Y1 s) \<and> nat (sint M) \<le> length (X1 s) \<and>
    nat (sint M) \<le> length (X2 s) \<longrightarrow>
    ((\<forall>j<nat (sint M). result_Y1 (Add_SSE F M s) j = result_Y1 (Add_default F M s) j) \<longleftrightarrow>
     (\<forall>j<nat (sint M). Y1 s ! j = fadd F (X1 s ! j) (X2 s ! j))))"
  using stub_vs_default [of M s F] by (simp add: Add_SSE_def)

text \<open>A call on one element where \<^verbatim>\<open>Y1\<close> holds the sum already.\<close>

theorem Add_SSE_writes_nothing_witness:
  "nat (sint (1 :: c_int)) \<le> length [3 :: real] \<and>
   Add_SSE exact_arithmetic 1 \<lparr>X1 = [1], X2 = [2], Y1 = [3], test2 = [0]\<rparr> =
     Some (0, \<lparr>X1 = [1], X2 = [2], Y1 = [3], test2 = [0]\<rparr>) \<and>
   result_Y1 (Add_SSE exact_arithmetic 1 \<lparr>X1 = [1], X2 = [2], Y1 = [3], test2 = [0]\<rparr>) 0 =
   result_Y1 (Add_default exact_arithmetic 1 \<lparr>X1 = [1], X2 = [2], Y1 = [3], test2 = [0]\<rparr>) 0"
proof -
  let ?s = "\<lparr>X1 = [1], X2 = [2], Y1 = [3 :: real], test2 = [0]\<rparr>"
  have len: "nat (sint (1 :: c_int)) \<le> length (Y1 ?s) \<and> nat (sint (1 :: c_int)) \<le> length (X1 ?s) \<and>
      nat (sint (1 :: c_int)) \<le> length (X2 ?s)"
    by simp
  have held: "\<forall>j<nat (sint (1 :: c_int)). Y1 ?s ! j = fadd exact_arithmetic (X1 ?s ! j) (X2 ?s ! j)"
    by (simp add: exact_arithmetic_def)
  have "Add_SSE exact_arithmetic 1 ?s = Some (0, ?s)"
    and "\<forall>j<nat (sint (1 :: c_int)). result_Y1 (Add_SSE exact_arithmetic 1 ?s) j =
           result_Y1 (Add_default exact_arithmetic 1 ?s) j"
    using Add_SSE_writes_nothing [of exact_arithmetic 1 ?s] len held by blast+
  then show ?thesis
    by simp
qed

text \<open>
  The claim as stated fails on one element with \<open>X1 = [1]\<close>, \<open>X2 = [2]\<close>, \<open>Y1 = [0]\<close>:
  \<^verbatim>\<open>Add_SSE\<close> leaves \<open>Y1[0] = 0\<close>, \<^verbatim>\<open>Add_default\<close> stores 3.
\<close>

theorem Add_SSE_counterexample:
  "result_Y1 (Add_SSE exact_arithmetic 1 \<lparr>X1 = [1], X2 = [2], Y1 = [0], test2 = [0]\<rparr>) 0 = Some 0 \<and>
   result_Y1 (Add_default exact_arithmetic 1 \<lparr>X1 = [1], X2 = [2], Y1 = [0], test2 = [0]\<rparr>) 0 = Some 3"
  by (simp add: result_Y1_def Add_SSE_def Add_default_def Add_default_loop.simps exact_arithmetic_def)

text \<open>
  Claim C2, as amended. \<^verbatim>\<open>Add_AVX\<close> is a skeleton left to be filled in: for every length and
  all inputs it returns 0 and leaves \<^verbatim>\<open>Y1\<close> and the other arrays as they were. So its output
  equals that of \<^verbatim>\<open>Add_default\<close> on \<open>[0, M)\<close> if and only if \<^verbatim>\<open>Y1\<close> held \<open>X1[j] + X2[j]\<close> at
  every \<open>j < M\<close> before the call, whatever \<open>M mod 8\<close> is.
\<close>

theorem Add_AVX_writes_nothing:
  "Add_AVX F M s = Some (0, s) \<and>
   (nat (sint M) \<le> length (Y1 s) \<and> nat (sint M) \<le> length (X1 s) \<and>
    nat (sint M) \<le> length (X2 s) \<longrightarrow>
    ((\<forall>j<nat (sint M). result_Y1 (Add_AVX F M s) j = result_Y1 (Add_default F M s) j) \<longleftrightarrow>
     (\<forall>j<nat (sint M). Y1 s ! j = fadd F (X1 s ! j) (X2 s ! j))))"
  using stub_vs_default [of M s F] by (simp add: Add_AVX_def)

text \<open>
  A call on nine elements (one full vector of eight and a tail of one) where \<^verbatim>\<open>Y1\<close> holds the
  sums already: \<^verbatim>\<open>Add_AVX\<close> leaves the arrays as they are, and its output agrees with that of
  \<^verbatim>\<open>Add_default\<close> in the vector part (index 0) and in the tail (index 8), where both hold 3.
\<close>

theorem Add_AVX_writes_nothing_witness:
  "nat (sint (9 :: c_int)) \<le> length [3, 3, 3, 3, 3, 3, 3, 3, 3 :: real] \<and>
   nat (sint (9 :: c_int)) \<le> length [1, 1, 1, 1, 1, 1, 1, 1, 1 :: real] \<and>
   nat (sint (9 :: c_int)) \<le> length [2, 2, 2, 2, 2, 2, 2, 2, 2 :: real] \<and>
   Add_AVX exact_arithmetic 9
     \<lparr>X1 = [1, 1, 1, 1, 1, 1, 1, 1, 1], X2 = [2, 2, 2, 2, 2, 2, 2, 2, 2],
      Y1 = [3, 3, 3, 3, 3, 3, 3, 3, 3], test2 = [0, 0, 0, 0, 0, 0, 0, 0, 0]\<rparr> =
   Some (0, \<lparr>X1 = [1, 1, 1, 1, 1, 1, 1, 1, 1], X2 = [2, 2, 2, 2, 2, 2, 2, 2, 2],
      Y1 = [3, 3, 3, 3, 3, 3, 3, 3, 3], test2 = [0, 0, 0, 0, 0, 0, 0, 0, 0]\<rparr>) \<and>
   result_Y1 (Add_AVX exact_arithmetic 9
     \<lparr>X1 = [1, 1, 1, 1, 1, 1, 1, 1, 1], X2 = [2, 2, 2, 2, 2, 2, 2, 2, 2],
      Y1 = [3, 3, 3, 3, 3, 3, 3, 3, 3], test2 = [0, 0, 0, 0, 0, 0, 0, 0, 0]\<rparr>) 0 =
   result_Y1 (Add_default exact_arithmetic 9
     \<lparr>X1 = [1, 1, 1, 1, 1, 1, 1, 1, 1], X2 = [2, 2, 2, 2, 2, 2, 2, 2, 2],
      Y1 = [3, 3, 3, 3, 3, 3, 3, 3, 3], test2 = [0, 0, 0, 0, 0, 0, 0, 0, 0]\<rparr>) 0 \<and>
   result_Y1 (Add_AVX exact_arithmetic 9
     \<lparr>X1 = [1, 1, 1, 1, 1, 1, 1, 1, 1], X2 = [2, 2, 2, 2, 2, 2, 2, 2, 2],
      Y1 = [3, 3, 3, 3, 3, 3, 3, 3, 3], test2 = [0, 0, 0, 0, 0, 0, 0, 0, 0]\<rparr>) 8 =
   result_Y1 (Add_default exact_arithmetic 9
     \<lparr>X1 = [1, 1, 1, 1, 1, 1, 1, 1, 1], X2 = [2, 2, 2, 2, 2, 2, 2, 2, 2],
      Y1 = [3, 3, 3, 3, 3, 3, 3, 3, 3], test2 = [0, 0, 0, 0, 0, 0, 0, 0, 0]\<rparr>) 8 \<and>
   result_Y1 (Add_default exact_arithmetic 9
     \<lparr>X1 = [1, 1, 1, 1, 1, 1, 1, 1, 1], X2 = [2, 2, 2, 2, 2, 2, 2, 2, 2],
      Y1 = [3, 3, 3, 3, 3, 3, 3, 3, 3], test2 = [0, 0, 0, 0, 0, 0, 0, 0, 0]\<rparr>) 8 = Some 3"
proof -
  let ?s = "\<lparr>X1 = [1, 1, 1, 1, 1, 1, 1, 1, 1], X2 = [2, 2, 2, 2, 2, 2, 2, 2, 2],
      Y1 = [3, 3, 3, 3, 3, 3, 3, 3, 3 :: real], test2 = [0, 0, 0, 0, 0, 0, 0, 0, 0]\<rparr>"
  have nine: "nat (sint (9 :: c_int)) = 9"
    by simp
  have len: "nat (sint (9 :: c_int)) \<le> length (Y1 ?s) \<and> nat (sint (9 :: c_int)) \<le> length (X1 ?s) \<and>
      nat (sint (9 :: c_int)) \<le> length (X2 ?s)"
    by simp
  have pre: "\<forall>j<nat (sint (9 :: c_int)). Y1 ?s ! j = fadd exact_arithmetic (X1 ?s ! j) (X2 ?s ! j)"
    unfolding nine by (simp add: exact_arithmetic_def nth_Cons' )
  have stub: "Add_AVX exact_arithmetic 9 ?s = Some (0, ?s)"
    and agree: "\<forall>j<nat (sint (9 :: c_int)). result_Y1 (Add_AVX exact_arithmetic 9 ?s) j =
           result_Y1 (Add_default exact_arithmetic 9 ?s) j"
    using Add_AVX_writes_nothing [of exact_arithmetic 9 ?s] len pre by blast+
  have a0: "result_Y1 (Add_AVX exact_arithmetic 9 ?s) 0 = result_Y1 (Add_default exact_arithmetic 9 ?s) 0"
    using agree [rule_format, of 0] by simp
  have a8: "result_Y1 (Add_AVX exact_arithmetic 9 ?s) 8 = result_Y1 (Add_default exact_arithmetic 9 ?s) 8"
    using agree [rule_format, of 8] by simp
  have "result_Y1 (Add_AVX exact_arithmetic 9 ?s) 8 = Some 3"
    by (simp add: stub result_Y1_def)
  with a8 have d8: "result_Y1 (Add_default exact_arithmetic 9 ?s) 8 = Some 3"
    by simp
  show ?thesis
    using stub a0 a8 d8 by simp
qed

text \<open>
  The claim as stated fails on nine elements (one full vector of eight and a tail of one)
  with every \<open>X1[j] = 1\<close>, \<open>X2[j] = 2\<close>, \<open>Y1[j] = 0\<close>: at index 8 \<^verbatim>\<open>Add_AVX\<close> leaves 0 and
  \<^verbatim>\<open>Add_default\<close> stores 3.
\<close>

theorem Add_AVX_counterexample:
  "result_Y1 (Add_AVX exact_arithmetic 9
     \<lparr>X1 = [1, 1, 1, 1, 1, 1, 1, 1, 1], X2 = [2, 2, 2, 2, 2, 2, 2, 2, 2],
      Y1 = [0, 0, 0, 0, 0, 0, 0, 0, 0], test2 = [0, 0, 0, 0, 0, 0, 0, 0, 0]\<rparr>) 8 = Some 0 \<and>
   result_Y1 (Add_default exact_arithmetic 9
     \<lparr>X1 = [1, 1, 1, 1, 1, 1, 1, 1, 1], X2 = [2, 2, 2, 2, 2, 2, 2, 2, 2],
      Y1 = [0, 0, 0, 0, 0, 0, 0, 0, 0], test2 = [0, 0, 0, 0, 0, 0, 0, 0, 0]\<rparr>) 8 = Some 3"
  by (simp add: result_Y1_def Add_AVX_def Add_default_def Add_default_loop.simps
      exact_arithmetic_def)

end
